theory Spec2Isabelle
  imports Main "HOL-Library.Word"
begin

unbundle bit_operations_syntax

section \<open>Data model (marshal.go, gosnmp.go)\<close>

text \<open>
  Go's \<open>byte\<close>/\<open>uint8\<close> is an 8-bit word and \<open>uint32\<close> a 32-bit word; conversions
  such as \<open>byte(len(oid) + 4)\<close> and \<open>uint8(len(packet.Community))\<close> keep the low eight
  bits, which is what \<open>of_nat\<close> into \<open>8 word\<close> does. Lengths of slices are \<open>nat\<close>.
\<close>

type_synonym byte = "8 word"
type_synonym uint32 = "32 word"

text \<open>The PDUType constants of marshal.go.\<close>

abbreviation (input) Sequence :: byte where "Sequence \<equiv> 0x30"
abbreviation (input) GetRequest :: byte where "GetRequest \<equiv> 0xa0"
abbreviation (input) GetResponse :: byte where "GetResponse \<equiv> 0xa2"
abbreviation (input) SetRequest :: byte where "SetRequest \<equiv> 0xa3"
abbreviation (input) Trap :: byte where "Trap \<equiv> 0xa4"
abbreviation (input) GetBulkRequest :: byte where "GetBulkRequest \<equiv> 0xa5"

text \<open>The SnmpVersion constants.\<close>

abbreviation (input) Version1 :: byte where "Version1 \<equiv> 0x0"
abbreviation (input) Version2c :: byte where "Version2c \<equiv> 0x1"

text \<open>The Asn1BER constants that the marshalling code names.\<close>

abbreviation (input) Integer :: byte where "Integer \<equiv> 0x02"
abbreviation (input) OctetString :: byte where "OctetString \<equiv> 0x04"
abbreviation (input) Null :: byte where "Null \<equiv> 0x05"
abbreviation (input) ObjectIdentifier :: byte where "ObjectIdentifier \<equiv> 0x06"

text \<open>
  \<open>SnmpPDU.Value\<close> is an \<open>interface{}\<close>: a value together with its dynamic type. The
  variants listed are the dynamic types that \<open>ToBigInt\<close> distinguishes, and \<open>nil\<close>.
  Go's \<open>int\<close> is 64 bits wide on the platforms the library targets.
\<close>

datatype go_value =
    GoNil
  | GoInt "64 word"
  | GoInt8 "8 word"
  | GoInt16 "16 word"
  | GoInt32 "32 word"
  | GoInt64 "64 word"
  | GoUint "64 word"
  | GoUint8 "8 word"
  | GoUint16 "16 word"
  | GoUint32 "32 word"
  | GoUint64 "64 word"
  | GoString string

text \<open>
  The session. \<open>Timeout\<close> is a \<open>time.Duration\<close> (nanoseconds) and \<open>Retries\<close>
  an \<open>int\<close>; \<open>Conn\<close> is \<open>None\<close> for a nil connection. The logger and the random
  source are left out: logging does not influence any result. The record is declared
  before \<open>SnmpPacket\<close>, so the unqualified field names \<open>Version\<close>, \<open>Community\<close>,
  \<open>NonRepeaters\<close> and \<open>MaxRepetitions\<close> are the packet's and the session's are written
  \<open>GoSNMP.Version\<close> and so on.
\<close>

datatype conn = UDPConn

record GoSNMP =
  Target :: string
  Port :: "16 word"
  Community :: string
  Version :: byte
  Timeout :: int
  Retries :: int
  Conn :: "conn option"
  MaxRepetitions :: int
  NonRepeaters :: int
  requestID :: uint32

record SnmpPDU =
  Name :: string
  Type :: byte
  Value :: go_value

record SnmpPacket =
  Version :: byte
  Community :: string
  PDUType :: byte
  RequestID :: uint32
  Error :: byte
  ErrorIndex :: byte
  NonRepeaters :: byte
  MaxRepetitions :: byte
  Variables :: "SnmpPDU list"

text \<open>
  Errors are values. A run-time panic is the constructor \<open>Panic\<close>: it propagates through
  every caller like an error return, until \<open>send\<close> recovers it.
\<close>

datatype panic_value =
    InterfaceConversion | IntegerDivideByZero | MakesliceCapOutOfRange | RuntimeError string

datatype error =
    Panic panic_value
  | HelperError string
  | UnknownBERType byte
  | ConnMissing
  | RequestTimeout int
  | MarshalError error
  | WriteError string
  | ReadError string
  | DecodeError error
  | DecodeNil
  | OutOfOrder
  | Recovered panic_value
  | TooManyOids nat nat
  | SetOneOid
  | SetIntegersOnly
  | InvalidOid

text \<open>
  The constructors follow the messages of the code: \<open>UnknownBERType\<close> is
  "Unable to marshal PDU: unknown BER type", \<open>ConnMissing\<close> "&GoSNMP.Conn is
  missing", \<open>RequestTimeout n\<close> "Request timeout (after n retries)", \<open>MarshalError\<close>
  "marshal: ...", \<open>WriteError\<close> "Error writing to socket: ...", \<open>ReadError\<close> "Error
  reading from UDP: ...", \<open>DecodeError\<close> "Unable to decode packet: ...", \<open>DecodeNil\<close>
  "Unable to decode packet: nil", \<open>OutOfOrder\<close> "Out of order response", \<open>Recovered\<close>
  "recover: ...", \<open>TooManyOids\<close> "oid count (n) is greater than maxOids (m)",
  \<open>SetOneOid\<close> and \<open>SetIntegersOnly\<close> the two refusals of \<open>Set\<close>. \<open>HelperError\<close> is an
  error returned by a helper whose body is not at hand, and \<open>InvalidOid\<close> the error
  that the specification names for the OID codec.
\<close>

text \<open>
  \<open>marshalLength\<close> and \<open>marshalOID\<close> (helper.go) are called by the marshalling code
  but their bodies are not part of the sources at hand. \<open>unmarshal\<close> is in marshal.go,
  but what it returns is decided by \<open>parseLength\<close>, \<open>parseRawField\<close>, \<open>decodeValue\<close>
  and \<open>oidToString\<close>, which are missing as well. The functions below therefore take
  the three as parameters, bundled in a record, and every theorem about them holds for
  any implementation. \<open>unmarshal\<close> returns a packet or an error, never both nil, and
  it can panic (it reads \<open>packet[0]\<close> of an empty datagram).
\<close>

text \<open>The value of a panic that is on its way to the deferred \<open>recover\<close> of \<open>send\<close>.\<close>

fun panicOf :: "error \<Rightarrow> panic_value option" where
  "panicOf (Panic p) = Some p"
| "panicOf other = None"

record helpers =
  marshalLength :: "nat \<Rightarrow> error + byte list"
  marshalOID :: "string \<Rightarrow> error + byte list"
  unmarshal :: "byte list \<Rightarrow> error + SnmpPacket"

section \<open>Marshalling (marshal.go)\<close>

text \<open>\<open>binary.Write(buf, binary.BigEndian, requestid)\<close> for a \<open>uint32\<close>: four bytes,
  most significant first. Writing to a \<open>bytes.Buffer\<close> does not fail.\<close>

definition bigEndian32 :: "uint32 \<Rightarrow> byte list" where
  "bigEndian32 w = [ucast (drop_bit 24 w), ucast (drop_bit 16 w), ucast (drop_bit 8 w), ucast w]"

text \<open>\<open>buf.WriteString\<close>: the bytes of a Go string.\<close>

definition stringBytes :: "string \<Rightarrow> byte list" where
  "stringBytes s = map of_char s"

definition marshalVarbind :: "helpers \<Rightarrow> SnmpPDU \<Rightarrow> error + byte list" where
  "marshalVarbind h pdu =
    (case marshalOID h (Name pdu) of
       Inl err \<Rightarrow> Inl err
     | Inr oid \<Rightarrow>
        if Type pdu = Null then
          Inr ([Sequence, of_nat (length oid + 4)]
               @ [ObjectIdentifier, of_nat (length oid)]
               @ oid
               @ [Null, 0x00])
        else if Type pdu = Integer then
          (case Value pdu of
             GoInt v \<Rightarrow>
               let tmpBuf = [ObjectIdentifier, of_nat (length oid)] @ oid;
                   intBytes = [ucast v :: byte];
                   tmpBuf = tmpBuf @ [Integer, of_nat (length intBytes)] @ intBytes
               in Inr ([Sequence] @ [of_nat (length oid + length intBytes + 4)] @ tmpBuf)
           | _ \<Rightarrow> Inl (Panic InterfaceConversion))
        else Inl (UnknownBERType (Type pdu)))"

text \<open>The \<open>range\<close> loop of \<open>marshalVBL\<close>, with the buffer it appends to.\<close>

fun marshalVBL_loop :: "helpers \<Rightarrow> SnmpPDU list \<Rightarrow> byte list \<Rightarrow> error + byte list" where
  "marshalVBL_loop h [] vblBuf = Inr vblBuf"
| "marshalVBL_loop h (pdu # pdus) vblBuf =
    (case marshalVarbind h pdu of
       Inl err \<Rightarrow> Inl err
     | Inr vb \<Rightarrow> marshalVBL_loop h pdus (vblBuf @ vb))"

definition marshalVBL :: "helpers \<Rightarrow> SnmpPDU list \<Rightarrow> error + byte list" where
  "marshalVBL h pdus =
    (case marshalVBL_loop h pdus [] of
       Inl err \<Rightarrow> Inl err
     | Inr vblBytes \<Rightarrow>
        (case marshalLength h (length vblBytes) of
           Inl err \<Rightarrow> Inl err
         | Inr vblLengthBytes \<Rightarrow> Inr ([Sequence] @ vblLengthBytes @ vblBytes)))"

definition marshalPDU :: "helpers \<Rightarrow> SnmpPacket \<Rightarrow> SnmpPDU list \<Rightarrow> uint32 \<Rightarrow> error + byte list" where
  "marshalPDU h packet pdus requestid =
    (let buf = [2, 4] @ bigEndian32 requestid;
         buf = (if PDUType packet = GetBulkRequest
                then buf @ [2, 1, NonRepeaters packet] @ [2, 1, MaxRepetitions packet]
                else buf @ [2, 1, 0] @ [2, 1, 0])
     in case marshalVBL h pdus of
          Inl err \<Rightarrow> Inl err
        | Inr vbl \<Rightarrow>
           (let buf = buf @ vbl
            in case marshalLength h (length buf) of
                 Inl err2 \<Rightarrow> Inl err2
               | Inr bufLengthBytes \<Rightarrow> Inr ([PDUType packet] @ bufLengthBytes @ buf)))"

text \<open>The parameter \<open>requestID\<close> is written with a prime: the plain name is the
  session's field.\<close>

definition marshalMsg :: "helpers \<Rightarrow> SnmpPacket \<Rightarrow> SnmpPDU list \<Rightarrow> byte \<Rightarrow> uint32 \<Rightarrow> error + byte list" where
  "marshalMsg h packet pdus pdutype requestID' =
    (let buf = [2, 1, Version packet];
         buf = buf @ [4, of_nat (length (Community packet))];
         buf = buf @ stringBytes (Community packet)
     in case marshalPDU h packet pdus requestID' of
          Inl err \<Rightarrow> Inl err
        | Inr pdu \<Rightarrow>
           (let buf = buf @ pdu
            in case marshalLength h (length buf) of
                 Inl err \<Rightarrow> Inl err
               | Inr bufLengthBytes \<Rightarrow> Inr ([Sequence] @ bufLengthBytes @ buf)))"

section \<open>Helpers (gosnmp.go)\<close>

text \<open>
  Go's \<open>/\<close> and \<open>%\<close> on integers truncate towards zero, and the remainder has the sign
  of the dividend; HOL's \<open>div\<close> and \<open>mod\<close> round down. Both are only used here with a
  divisor that the caller has checked to be non-zero.
\<close>

definition go_quo :: "int \<Rightarrow> int \<Rightarrow> int" where
  "go_quo a b = sgn a * sgn b * (\<bar>a\<bar> div \<bar>b\<bar>)"

definition go_rem :: "int \<Rightarrow> int \<Rightarrow> int" where
  "go_rem a b = a - b * go_quo a b"

text \<open>
  \<open>Partition\<close>. The remainder \<open>currentPosition % partitionSize\<close> panics when
  \<open>partitionSize\<close> is zero. The arguments are Go \<open>int\<close>s, modelled as unbounded
  integers: the only subtraction that can leave the 64-bit range is
  \<open>partitionSize - 1\<close> at the least \<open>int\<close>, where the comparison is false with and
  without the wrap-around, since the remainder of a non-negative position by the least
  \<open>int\<close> is the position itself, which is below the greatest \<open>int\<close>.
\<close>

definition Partition :: "int \<Rightarrow> int \<Rightarrow> int \<Rightarrow> error + bool" where
  "Partition currentPosition partitionSize sliceLength =
    (if currentPosition < 0 \<or> currentPosition \<ge> sliceLength then Inr False
     else if partitionSize = 1 then Inr True
     else if partitionSize = 0 then Inl (Panic IntegerDivideByZero)
     else if go_rem currentPosition partitionSize = partitionSize - 1 then Inr True
     else if currentPosition = sliceLength - 1 then Inr True
     else Inr False)"

section \<open>The transaction engine (gosnmp.go)\<close>

abbreviation (input) maxOids :: nat where "maxOids \<equiv> 60"

text \<open>
  What \<open>send\<close> reads from the outside world, by the number of the loop iteration
  (the variable \<open>retries\<close>): the clock (\<open>time.Now()\<close> is read once before the loop,
  once in the deadline test of every iteration after the first, and once for the
  request deadline), the error of \<open>Conn.Write\<close> and the result of \<open>Conn.Read\<close>
  (the error, or the bytes \<open>resp[:n]\<close>). Instants are integers on the scale of
  \<open>Timeout\<close>. \<open>makeslice_max\<close> is the greatest capacity for which the runtime makes a
  \<open>[]uint32\<close> (its allocation limit divided by the four bytes of an element, \<open>2 ^ 46\<close>
  on 64-bit Linux).
\<close>

record env =
  now_start :: int
  now_retry :: "nat \<Rightarrow> int"
  now_request :: "nat \<Rightarrow> int"
  conn_Write :: "nat \<Rightarrow> byte list \<Rightarrow> string option"
  conn_Read :: "nat \<Rightarrow> string + byte list"
  makeslice_max :: int

text \<open>
  The variables of \<open>send\<close>: the named results \<open>result\<close> and \<open>err\<close>, \<open>allReqIDs\<close>
  and the session's counter \<open>x.requestID\<close>; and what it did to the connection: the
  deadlines it set and the datagrams it passed to \<open>Conn.Write\<close>, in order. The state
  in which the function leaves is what it returns.
\<close>

record send_state =
  result :: "SnmpPacket option"
  err :: "error option"
  allReqIDs :: "uint32 list"
  x_requestID :: uint32
  deadlines :: "int list"
  written :: "byte list list"

text \<open>
  One iteration of the loop of \<open>send\<close>, from \<open>err = nil\<close> to the end of the body. The
  iteration either leaves the function (\<open>Leave\<close>: the \<open>return result, nil\<close>, the
  \<open>break\<close> that leads to \<open>return nil, err\<close>, or a panic) or goes on to the next
  one (\<open>Continue\<close>). A panic leaves through the deferred \<open>recover\<close>, which sets
  \<open>err\<close> only, so the named result keeps its last value. \<open>x\<close> is the session after
  \<open>Retries\<close> has been clamped. \<open>Retries + 1\<close> is computed on unbounded integers, which
  is Go's value for every \<open>Retries\<close> below the greatest \<open>int\<close>; with the greatest
  \<open>int\<close> the allocation in \<open>send\<close> has panicked before the loop. The test
  \<open>result == nil\<close> that comes with the test of the variables is never true after
  \<open>unmarshal\<close> has returned without an error. The loop over \<open>allReqIDs\<close> that sets
  \<open>validID\<close> is \<open>list_ex\<close>.
\<close>

datatype flow = Leave send_state | Continue send_state

definition attempt ::
  "helpers \<Rightarrow> env \<Rightarrow> GoSNMP \<Rightarrow> SnmpPDU list \<Rightarrow> SnmpPacket \<Rightarrow> nat \<Rightarrow> send_state \<Rightarrow> flow"
where
  "attempt h e x pdus packetOut retries st =
    (let reqDeadline = now_request e retries + go_quo (Timeout x) (Retries x + 1);
         reqID = x_requestID st + 1;
         st = st\<lparr>err := None,
                 deadlines := deadlines st @ [reqDeadline],
                 x_requestID := reqID,
                 allReqIDs := allReqIDs st @ [reqID]\<rparr>
     in case marshalMsg h packetOut pdus (PDUType packetOut) reqID of
          Inl merr \<Rightarrow>
           (case panicOf merr of
              Some p \<Rightarrow> Leave (st\<lparr>err := Some (Recovered p)\<rparr>)
            | None \<Rightarrow> Leave (st\<lparr>result := None, err := Some (MarshalError merr)\<rparr>))
        | Inr outBuf \<Rightarrow>
           (let st = st\<lparr>written := written st @ [outBuf]\<rparr>
            in case conn_Write e retries outBuf of
                 Some werr \<Rightarrow> Continue (st\<lparr>err := Some (WriteError werr)\<rparr>)
               | None \<Rightarrow>
                  (case conn_Read e retries of
                     Inl rerr \<Rightarrow> Continue (st\<lparr>err := Some (ReadError rerr)\<rparr>)
                   | Inr resp \<Rightarrow>
                      (case unmarshal h resp of
                         Inl uerr \<Rightarrow>
                          (case panicOf uerr of
                             Some p \<Rightarrow> Leave (st\<lparr>err := Some (Recovered p)\<rparr>)
                           | None \<Rightarrow>
                              Continue (st\<lparr>result := None, err := Some (DecodeError uerr)\<rparr>))
                       | Inr r \<Rightarrow>
                           if length (Variables r) < 1 then
                             Continue (st\<lparr>result := Some r, err := Some DecodeNil\<rparr>)
                           else if \<not> list_ex (\<lambda>id. id = RequestID r) (allReqIDs st) then
                             Continue (st\<lparr>result := Some r, err := Some OutOfOrder\<rparr>)
                           else
                             Leave (st\<lparr>result := Some r, err := None\<rparr>)))))"

text \<open>
  The loop \<open>for retries := 0; ; retries++\<close>: before every iteration but the first, the
  clock is compared with the final deadline and the counter with \<open>x.Retries\<close>; both
  exits \<open>break\<close> to \<open>return nil, err\<close>, the second with the error of the iteration
  before.
\<close>

function send_loop ::
  "helpers \<Rightarrow> env \<Rightarrow> GoSNMP \<Rightarrow> SnmpPDU list \<Rightarrow> SnmpPacket \<Rightarrow> int \<Rightarrow> nat \<Rightarrow> send_state \<Rightarrow> send_state"
where
  "send_loop h e x pdus packetOut finalDeadline retries st =
    (if retries > 0 \<and> now_retry e retries > finalDeadline then
       st\<lparr>result := None, err := Some (RequestTimeout (int retries - 1))\<rparr>
     else if retries > 0 \<and> int retries > Retries x then
       st\<lparr>result := None\<rparr>
     else
       (case attempt h e x pdus packetOut retries st of
          Leave st' \<Rightarrow> st'
        | Continue st' \<Rightarrow> send_loop h e x pdus packetOut finalDeadline (Suc retries) st'))"
  by pat_completeness auto
termination
  by (relation "measure (\<lambda>(h, e, x, pdus, packetOut, finalDeadline, retries, st).
        nat (Retries x) + 2 - retries)") auto

declare send_loop.simps [simp del]

text \<open>The state of a call that has not touched the connection.\<close>

definition initial_state :: "GoSNMP \<Rightarrow> send_state" where
  "initial_state x =
    \<lparr>result = None, err = None, allReqIDs = [], x_requestID = requestID x,
     deadlines = [], written = []\<rparr>"

text \<open>
  \<open>x.Retries + 1\<close> as the \<open>int\<close> of 64 bits that Go computes: the sum wraps around at
  the greatest \<open>int\<close>.
\<close>

definition wrap64 :: "int \<Rightarrow> int" where
  "wrap64 i = (i + 2 ^ 63) mod 2 ^ 64 - 2 ^ 63"

text \<open>
  \<open>make([]uint32, 0, cap)\<close> panics when the capacity is negative or more than the
  runtime makes.
\<close>

definition makeslice_panics :: "env \<Rightarrow> int \<Rightarrow> bool" where
  "makeslice_panics e cap = (cap < 0 \<or> makeslice_max e < cap)"

text \<open>
  \<open>send\<close>: the test of the connection, the final deadline, the clamp of \<open>Retries\<close>, the
  allocation of \<open>allReqIDs\<close> with the capacity \<open>x.Retries + 1\<close>, and the loop. A panic
  of the allocation is recovered like every other one: the function returns with the
  recovered panic as its error before it has touched the connection.
\<close>

definition send :: "helpers \<Rightarrow> env \<Rightarrow> GoSNMP \<Rightarrow> SnmpPDU list \<Rightarrow> SnmpPacket \<Rightarrow> send_state" where
  "send h e x pdus packetOut =
    (case Conn x of
       None \<Rightarrow> (initial_state x)\<lparr>err := Some ConnMissing\<rparr>
     | Some c \<Rightarrow>
        let finalDeadline = now_start e + Timeout x;
            x = (if Retries x < 0 then x\<lparr>Retries := 0\<rparr> else x)
        in if makeslice_panics e (wrap64 (Retries x + 1)) then
             (initial_state x)\<lparr>err := Some (Recovered MakesliceCapOutOfRange)\<rparr>
           else send_loop h e x pdus packetOut finalDeadline 0 (initial_state x))"

text \<open>
  The loop \<open>for _, oid := range oids { pdus = append(pdus, SnmpPDU{oid, Null, nil}) }\<close>
  of \<open>Get\<close>, \<open>GetNext\<close> and \<open>GetBulk\<close>.
\<close>

fun oidsToPdus :: "string list \<Rightarrow> SnmpPDU list \<Rightarrow> SnmpPDU list" where
  "oidsToPdus [] pdus = pdus"
| "oidsToPdus (oid # oids) pdus =
    oidsToPdus oids (pdus @ [\<lparr>Name = oid, Type = Null, Value = GoNil\<rparr>])"


definition Set :: "helpers \<Rightarrow> env \<Rightarrow> GoSNMP \<Rightarrow> SnmpPDU list \<Rightarrow> send_state" where
  "Set h e x pdus =
    (if length pdus \<noteq> 1 then (initial_state x)\<lparr>err := Some SetOneOid\<rparr>
     else if Type (pdus ! 0) \<noteq> Integer then (initial_state x)\<lparr>err := Some SetIntegersOnly\<rparr>
     else
       let packetOut = \<lparr>Version = GoSNMP.Version x, Community = GoSNMP.Community x,
                        PDUType = SetRequest, RequestID = 0, Error = 0, ErrorIndex = 0,
                        NonRepeaters = 0, MaxRepetitions = 0, Variables = []\<rparr>
       in send h e x pdus packetOut)"


definition GetBulk :: "helpers \<Rightarrow> env \<Rightarrow> GoSNMP \<Rightarrow> string list \<Rightarrow> byte \<Rightarrow> byte \<Rightarrow> send_state" where
  "GetBulk h e x oids nonRepeaters maxRepetitions =
    (let oidCount = length oids
     in if oidCount > maxOids then
          (initial_state x)\<lparr>err := Some (TooManyOids oidCount maxOids)\<rparr>
        else
          let pdus = oidsToPdus oids [];
              packetOut = \<lparr>Version = GoSNMP.Version x, Community = GoSNMP.Community x,
                           PDUType = GetBulkRequest, RequestID = 0, Error = 0, ErrorIndex = 0,
                           NonRepeaters = nonRepeaters, MaxRepetitions = maxRepetitions,
                           Variables = []\<rparr>
          in send h e x pdus packetOut)"


section \<open>The helpers that are not at hand, after the specification\<close>

text \<open>
  Modelled from the spec: \<open>marshalLength\<close> (helper.go) is missing. Section 4.1: a length
  of at most 127 is one byte; a longer one is the byte \<open>0x80 | n\<close> followed by the \<open>n\<close>
  big-endian bytes of the length, with no leading zero byte.
\<close>

function bigEndianBytes :: "nat \<Rightarrow> byte list" where
  "bigEndianBytes n =
    (if n < 256 then [of_nat n] else bigEndianBytes (n div 256) @ [of_nat (n mod 256)])"
  by pat_completeness auto
termination
  by (relation "measure id") auto

declare bigEndianBytes.simps [simp del]

definition marshalLength_spec :: "nat \<Rightarrow> error + byte list" where
  "marshalLength_spec len =
    (if len \<le> 127 then Inr [of_nat len]
     else let bs = bigEndianBytes len in Inr ([0x80 OR of_nat (length bs)] @ bs))"

text \<open>
  Modelled from the spec: \<open>marshalOID\<close> (helper.go) is missing. Section 4.2: a leading
  dot is accepted and discarded; the components are decimal integers separated by dots,
  and an empty component fails with \<open>InvalidOid\<close>. Of the subidentifiers
  \<open>s0, s1, ...\<close> (at least two) the first byte is \<open>40 * s0 + s1\<close>, where \<open>s0\<close> is at
  most 2 and \<open>s1\<close> at most 39 when \<open>s0\<close> is below 2; every later subidentifier is
  written base 128, most significant group first, with the high bit set on every byte
  but the last.
\<close>

fun splitDots :: "string \<Rightarrow> string list" where
  "splitDots [] = [[]]"
| "splitDots (c # cs) =
    (if c = CHR ''.'' then [] # splitDots cs
     else (case splitDots cs of
             [] \<Rightarrow> [[c]]
           | w # ws \<Rightarrow> (c # w) # ws))"

definition isDigit :: "char \<Rightarrow> bool" where
  "isDigit c = (48 \<le> (of_char c :: nat) \<and> (of_char c :: nat) \<le> 57)"

fun decimal :: "string \<Rightarrow> nat \<Rightarrow> nat option" where
  "decimal [] acc = Some acc"
| "decimal (c # cs) acc =
    (if isDigit c then decimal cs (10 * acc + (of_char c - 48)) else None)"

fun components :: "string list \<Rightarrow> nat list option" where
  "components [] = Some []"
| "components (w # ws) =
    (if w = [] then None
     else (case decimal w 0 of
             None \<Rightarrow> None
           | Some n \<Rightarrow> (case components ws of None \<Rightarrow> None | Some ns \<Rightarrow> Some (n # ns))))"

definition parseOid_spec :: "string \<Rightarrow> nat list option" where
  "parseOid_spec s =
    components (splitDots (case s of [] \<Rightarrow> [] | c # cs \<Rightarrow> if c = CHR ''.'' then cs else s))"

function base128High :: "nat \<Rightarrow> byte list" where
  "base128High n =
    (if n = 0 then [] else base128High (n div 128) @ [0x80 OR of_nat (n mod 128)])"
  by pat_completeness auto
termination
  by (relation "measure id") auto

declare base128High.simps [simp del]

definition subidentifier :: "nat \<Rightarrow> byte list" where
  "subidentifier s = base128High (s div 128) @ [of_nat (s mod 128)]"

definition encodeOid_spec :: "nat list \<Rightarrow> error + byte list" where
  "encodeOid_spec subs =
    (case subs of
       s0 # s1 # rest \<Rightarrow>
         if s0 \<le> 2 \<and> (if s0 < 2 then s1 \<le> 39 else True)
         then Inr ([of_nat (40 * s0 + s1)] @ concat (map subidentifier rest))
         else Inl InvalidOid
     | _ \<Rightarrow> Inl InvalidOid)"

definition marshalOID_spec :: "string \<Rightarrow> error + byte list" where
  "marshalOID_spec s =
    (case parseOid_spec s of None \<Rightarrow> Inl InvalidOid | Some subs \<Rightarrow> encodeOid_spec subs)"

section \<open>Scenarios\<close>

text \<open>
  Modelled from the spec: \<open>parseLength\<close>, \<open>parseRawField\<close>, \<open>decodeValue\<close> and
  \<open>oidToString\<close> (helper.go), which decide what \<open>unmarshal\<close> returns, are missing. In
  their place stands a table for \<open>unmarshal\<close> on the datagrams of the scenarios.
  \<open>hello_reply\<close> is the datagram of scenario S2 of the specification with a given
  request id, and \<open>hello_packet\<close> the packet that S2 says it decodes to;
  \<open>empty_reply\<close> is a response whose varbind list is empty.
\<close>

definition hello_reply :: "uint32 \<Rightarrow> byte list" where
  "hello_reply rid =
    [0x30, 0x2E, 0x02, 0x01, 0x01, 0x04, 0x06, 0x70, 0x75, 0x62, 0x6C, 0x69, 0x63, 0xA2, 0x21,
     0x02, 0x04] @ bigEndian32 rid @
    [0x02, 0x01, 0x00, 0x02, 0x01, 0x00, 0x30, 0x13, 0x30, 0x11, 0x06, 0x08, 0x2B, 0x06, 0x01,
     0x02, 0x01, 0x01, 0x01, 0x00, 0x04, 0x05, 0x68, 0x65, 0x6C, 0x6C, 0x6F]"

definition hello_packet :: "uint32 \<Rightarrow> SnmpPacket" where
  "hello_packet rid =
    \<lparr>Version = Version2c, Community = ''public'', PDUType = GetResponse, RequestID = rid,
     Error = 0, ErrorIndex = 0, NonRepeaters = 0, MaxRepetitions = 0,
     Variables = [\<lparr>Name = ''.1.3.6.1.2.1.1.1.0'', Type = OctetString, Value = GoString ''hello''\<rparr>]\<rparr>"

definition empty_reply :: "uint32 \<Rightarrow> byte list" where
  "empty_reply rid =
    [0x30, 0x1B, 0x02, 0x01, 0x01, 0x04, 0x06, 0x70, 0x75, 0x62, 0x6C, 0x69, 0x63, 0xA2, 0x0E,
     0x02, 0x04] @ bigEndian32 rid @ [0x02, 0x01, 0x00, 0x02, 0x01, 0x00, 0x30, 0x00]"

definition empty_packet :: "uint32 \<Rightarrow> SnmpPacket" where
  "empty_packet rid =
    \<lparr>Version = Version2c, Community = ''public'', PDUType = GetResponse, RequestID = rid,
     Error = 0, ErrorIndex = 0, NonRepeaters = 0, MaxRepetitions = 0, Variables = []\<rparr>"

definition unmarshal_scenarios :: "byte list \<Rightarrow> error + SnmpPacket" where
  "unmarshal_scenarios packet =
    (if packet = hello_reply 5 then Inr (hello_packet 5)
     else if packet = hello_reply 9 then Inr (hello_packet 9)
     else if packet = empty_reply 9 then Inr (empty_packet 9)
     else Inl (HelperError ''no such datagram in the scenarios''))"

text \<open>The helpers after the specification, used wherever a theorem is evaluated.\<close>

definition spec_helpers :: helpers where
  "spec_helpers =
    \<lparr>marshalLength = marshalLength_spec, marshalOID = marshalOID_spec,
     unmarshal = unmarshal_scenarios\<rparr>"

text \<open>
  The inputs of the scenarios: the varbind of \<open>Get([".1.3.6.1.2.1.1.1.0"])\<close>, a
  packet as \<open>Get\<close>, \<open>GetNext\<close>, \<open>Set\<close> and \<open>GetBulk\<close> build it (community "public",
  version 2c), a varbind of a \<open>Set\<close> with the Go \<open>int\<close> 300 and one with the
  \<open>int64\<close> 300, a packet whose community has 256 bytes, and a connected session with
  a timeout, a number of retries and a request-id counter.
\<close>

definition sysDescr :: SnmpPDU where
  "sysDescr = \<lparr>Name = ''.1.3.6.1.2.1.1.1.0'', Type = Null, Value = GoNil\<rparr>"

definition request_packet :: "byte \<Rightarrow> SnmpPacket" where
  "request_packet t =
    \<lparr>Version = Version2c, Community = ''public'', PDUType = t, RequestID = 0,
     Error = 0, ErrorIndex = 0, NonRepeaters = 0, MaxRepetitions = 0, Variables = []\<rparr>"

definition sysContact_300 :: SnmpPDU where
  "sysContact_300 = \<lparr>Name = ''.1.3.6.1.2.1.1.4.0'', Type = Integer, Value = GoInt 300\<rparr>"

definition sysContact_int64 :: SnmpPDU where
  "sysContact_int64 = \<lparr>Name = ''.1.3.6.1.2.1.1.4.0'', Type = Integer, Value = GoInt64 300\<rparr>"

definition long_community_packet :: SnmpPacket where
  "long_community_packet = (request_packet GetRequest)\<lparr>Community := replicate 256 CHR ''a''\<rparr>"

definition session :: "int \<Rightarrow> int \<Rightarrow> uint32 \<Rightarrow> GoSNMP" where
  "session timeout retries rid =
    \<lparr>Target = ''192.0.2.1'', Port = 161, GoSNMP.Community = ''public'',
     GoSNMP.Version = Version2c, Timeout = timeout, Retries = retries, Conn = Some UDPConn,
     GoSNMP.MaxRepetitions = 50, GoSNMP.NonRepeaters = 0, requestID = rid\<rparr>"

text \<open>
  Three environments. \<open>silent_agent\<close> never replies (scenario S4): every read fails,
  and the clock reads 301 more at every iteration, one unit after the deadline of the
  iteration before. \<open>late_reply_agent\<close> is scenario S5: the first read times out, and the
  datagram read afterwards answers the first request. \<open>empty_reply_agent\<close> answers with
  a response that has no variables and a request id that was never issued.
\<close>

definition silent_agent :: env where
  "silent_agent =
    \<lparr>now_start = 0, now_retry = (\<lambda>r. 301 * int r), now_request = (\<lambda>r. 301 * int r),
     conn_Write = (\<lambda>r outBuf. None), conn_Read = (\<lambda>r. Inl ''i/o timeout''),
     makeslice_max = 2 ^ 46\<rparr>"

definition late_reply_agent :: env where
  "late_reply_agent =
    \<lparr>now_start = 0, now_retry = (\<lambda>r. 300 * int r), now_request = (\<lambda>r. 300 * int r),
     conn_Write = (\<lambda>r outBuf. None),
     conn_Read = (\<lambda>r. if r = 0 then Inl ''i/o timeout'' else Inr (hello_reply 5)),
     makeslice_max = 2 ^ 46\<rparr>"

definition empty_reply_agent :: env where
  "empty_reply_agent =
    \<lparr>now_start = 0, now_retry = (\<lambda>r. 300 * int r), now_request = (\<lambda>r. 300 * int r),
     conn_Write = (\<lambda>r outBuf. None), conn_Read = (\<lambda>r. Inr (empty_reply 9)),
     makeslice_max = 2 ^ 46\<rparr>"

text \<open>
  The datagram that \<open>Get([".1.3.6.1.2.1.1.1.0"])\<close> sends with a given request id
  (scenario S1), and the variables of \<open>send\<close> in scenario S5 after the first
  iteration: request id 5 has been sent and the read has timed out.
\<close>

definition get_datagram :: "uint32 \<Rightarrow> byte list" where
  "get_datagram rid =
    [0x30, 0x29, 0x02, 0x01, 0x01, 0x04, 0x06, 0x70, 0x75, 0x62, 0x6C, 0x69, 0x63, 0xA0, 0x1C,
     0x02, 0x04] @ bigEndian32 rid @
    [0x02, 0x01, 0x00, 0x02, 0x01, 0x00, 0x30, 0x0E, 0x30, 0x0C, 0x06, 0x08, 0x2B, 0x06, 0x01,
     0x02, 0x01, 0x01, 0x01, 0x00, 0x05, 0x00]"

definition after_first_timeout :: send_state where
  "after_first_timeout =
    \<lparr>result = None, err = Some (ReadError ''i/o timeout''), allReqIDs = [5], x_requestID = 5,
     deadlines = [300], written = [get_datagram 5]\<rparr>"


section \<open>Partition\<close>

lemma go_rem_nonneg: "0 \<le> a \<Longrightarrow> 0 < b \<Longrightarrow> go_rem a b = a mod b"
proof (cases "a = 0")
  case True
  then show ?thesis by (simp add: go_rem_def go_quo_def)
next
  case False
  assume "0 \<le> a" "0 < b"
  with False have "go_quo a b = a div b" by (simp add: go_quo_def)
  then show ?thesis by (simp add: go_rem_def minus_mult_div_eq_mod)
qed

lemma go_rem_negative_divisor: "0 \<le> a \<Longrightarrow> b < 0 \<Longrightarrow> go_rem a b = a mod (- b)"
proof (cases "a = 0")
  case True
  then show ?thesis by (simp add: go_rem_def go_quo_def)
next
  case False
  assume "0 \<le> a" "b < 0"
  with False have "go_quo a b = - (a div (- b))" by (simp add: go_quo_def)
  then have "go_rem a b = a - (- b) * (a div (- b))" by (simp add: go_rem_def)
  then show ?thesis by (simp only: minus_mult_div_eq_mod)
qed

lemma mod_succ_zero:
  fixes k p :: int
  assumes "0 < k"
  shows "(p mod k = k - 1) = ((p + 1) mod k = 0)"
proof
  assume "p mod k = k - 1"
  then have "(p mod k + 1) mod k = 0" by simp
  then show "(p + 1) mod k = 0" by (simp add: mod_add_left_eq)
next
  assume z: "(p + 1) mod k = 0"
  have eq: "(p + 1) mod k = (p mod k + 1) mod k" by (simp add: mod_add_left_eq)
  have b: "0 \<le> p mod k" "p mod k < k" using assms by simp_all
  show "p mod k = k - 1"
  proof (rule ccontr)
    assume "p mod k \<noteq> k - 1"
    with b have "p mod k + 1 < k" by arith
    with b have "(p mod k + 1) mod k = p mod k + 1" by simp
    with z eq b show False by arith
  qed
qed

lemma Partition_in_range:
  assumes "0 \<le> p" "p < n" "1 \<le> k"
  shows "Partition p k n = Inr (p = n - 1 \<or> (p + 1) mod k = 0)"
proof (cases "k = 1")
  case True
  then show ?thesis using assms by (simp add: Partition_def)
next
  case False
  with assms have s: "0 < k" "k \<noteq> 0" by arith+
  have "go_rem p k = p mod k" using assms s by (simp add: go_rem_nonneg)
  then show ?thesis using assms False s
    by (auto simp add: Partition_def mod_succ_zero [OF s(1)])
qed

lemma Partition_out_of_range: "p < 0 \<or> n \<le> p \<Longrightarrow> Partition p k n = Inr False"
  by (auto simp add: Partition_def)

lemma boundary_multiple:
  fixes k p :: int
  assumes "1 \<le> k" "0 \<le> p"
  shows "((p + 1) mod k = 0) = (\<exists>m. 1 \<le> m \<and> p = m * k - 1)"
proof
  assume "(p + 1) mod k = 0"
  then have "k dvd p + 1" by (simp add: dvd_eq_mod_eq_0)
  then obtain m where m: "p + 1 = k * m" by (auto simp: dvd_def)
  have "1 \<le> m"
  proof (rule ccontr)
    assume "\<not> 1 \<le> m"
    then have "m \<le> 0" by simp
    with assms have "k * m \<le> 0" by (simp add: mult_le_0_iff)
    with m assms show False by simp
  qed
  with m show "\<exists>m. 1 \<le> m \<and> p = m * k - 1" by (intro exI [of _ m]) (simp add: mult.commute)
next
  assume "\<exists>m. 1 \<le> m \<and> p = m * k - 1"
  then obtain m where "p = m * k - 1" by blast
  then show "(p + 1) mod k = 0" by simp
qed

text \<open>
  Claim C8, as amended. For every partition size of at least 1, \<open>Partition\<close> returns
  true exactly at the positions \<open>p\<close> of \<open>[0, n)\<close> with \<open>p = n - 1\<close> or
  \<open>(p + 1) mod k = 0\<close>, that is exactly at the positions \<open>k - 1, 2k - 1, ...\<close> below
  \<open>n\<close> and at \<open>n - 1\<close>; at every other position, also at every position outside
  \<open>[0, n)\<close>, it returns false. It never panics for such a size.
\<close>

theorem Partition_boundaries:
  "1 \<le> k \<Longrightarrow>
     Partition p k n = Inr (0 \<le> p \<and> p < n \<and> (p = n - 1 \<or> (p + 1) mod k = 0)) \<and>
     (Partition p k n = Inr True) =
       (p \<in> {m * k - 1 | m. 1 \<le> m \<and> m * k \<le> n} \<union> (if 1 \<le> n then {n - 1} else {}))"
proof -
  assume k: "1 \<le> k"
  let ?B = "0 \<le> p \<and> p < n \<and> (p = n - 1 \<or> (p + 1) mod k = 0)"
  let ?M = "{m * k - 1 | m. 1 \<le> m \<and> m * k \<le> n}"
  let ?L = "if 1 \<le> n then {n - 1} else {}"
  have first: "Partition p k n = Inr ?B"
  proof (cases "0 \<le> p \<and> p < n")
    case True
    then have "Partition p k n = Inr (p = n - 1 \<or> (p + 1) mod k = 0)"
      using Partition_in_range [of p n k] k by blast
    moreover from True have "?B = (p = n - 1 \<or> (p + 1) mod k = 0)" by blast
    ultimately show ?thesis by (simp only:)
  next
    case False
    then have "p < 0 \<or> n \<le> p" by linarith
    then have "Partition p k n = Inr False" by (rule Partition_out_of_range)
    moreover from False have "?B = False" by blast
    ultimately show ?thesis by (simp only:)
  qed
  have M: "(p \<in> ?M) = (0 \<le> p \<and> p < n \<and> (p + 1) mod k = 0)"
  proof
    assume "p \<in> ?M"
    then obtain m where m: "1 \<le> m" "m * k \<le> n" "p = m * k - 1" by blast
    from m(1) k have "1 * 1 \<le> m * k" by (intro mult_mono) simp_all
    with m show "0 \<le> p \<and> p < n \<and> (p + 1) mod k = 0" by simp
  next
    assume a: "0 \<le> p \<and> p < n \<and> (p + 1) mod k = 0"
    then have p0: "0 \<le> p" and z: "(p + 1) mod k = 0" by simp_all
    from z have "\<exists>m. 1 \<le> m \<and> p = m * k - 1"
      by (rule boundary_multiple [OF k p0, THEN iffD1])
    then obtain m where m: "1 \<le> m" "p = m * k - 1" by blast
    with a have "m * k \<le> n" by simp
    with m show "p \<in> ?M" by blast
  qed
  have L: "(p \<in> ?L) = (0 \<le> p \<and> p < n \<and> p = n - 1)"
    by (cases "1 \<le> n") auto
  have S: "(p \<in> ?M \<union> ?L) = ?B"
    unfolding Un_iff M L by blast
  have T: "(Partition p k n = Inr True) = ?B"
    unfolding first by simp
  have "(Partition p k n = Inr True) = (p \<in> ?M \<union> ?L)"
    by (simp only: S T)
  with first show ?thesis by (rule conjI)
qed

text \<open>The example of the function's comment: eight items in partitions of three.\<close>

theorem Partition_boundaries_witness:
  "(1::int) \<le> 3 \<and> map (\<lambda>p. Partition p 3 8) [0, 1, 2, 3, 4, 5, 6, 7, 8] =
     [Inr False, Inr False, Inr True, Inr False, Inr False, Inr True, Inr False, Inr True, Inr False]
   \<and> (5::int) \<in> {m * 3 - 1 | m. 1 \<le> m \<and> m * 3 \<le> 8} \<union> (if (1::int) \<le> 8 then {8 - 1} else {})"
proof -
  have k: "(1::int) \<le> 3" by simp
  note b = Partition_boundaries [OF k, THEN conjunct1]
  have "Partition 0 3 8 = Inr False" using b [of 0 8] by simp
  moreover have "Partition 1 3 8 = Inr False" using b [of 1 8] by simp
  moreover have "Partition 2 3 8 = Inr True" using b [of 2 8] by simp
  moreover have "Partition 3 3 8 = Inr False" using b [of 3 8] by simp
  moreover have "Partition 4 3 8 = Inr False" using b [of 4 8] by simp
  moreover have five: "Partition 5 3 8 = Inr True" using b [of 5 8] by simp
  moreover have "Partition 6 3 8 = Inr False" using b [of 6 8] by simp
  moreover have "Partition 7 3 8 = Inr True" using b [of 7 8] by simp
  moreover have "Partition 8 3 8 = Inr False" using b [of 8 8] by simp
  moreover have "(5::int) \<in> {m * 3 - 1 | m. 1 \<le> m \<and> m * 3 \<le> 8} \<union> (if (1::int) \<le> 8 then {8 - 1} else {})"
    using Partition_boundaries [OF k, THEN conjunct2, of 5 8] five by (rule iffD1)
  ultimately show ?thesis using k by (simp only: list.map simp_thms)
qed

text \<open>
  The claim as it is written, for every integer triple, fails outside the slice:
  position 5 of a slice of length 4 satisfies \<open>(5 + 1) mod 3 = 0\<close>, and the guard of
  the function answers false.
\<close>

theorem Partition_counterexample:
  "Partition 5 3 4 \<noteq> Inr ((5::int) = 4 - 1 \<or> (5 + 1) mod 3 = (0::int))"
  by (simp add: Partition_def)

text \<open>
  Claim C9. With a partition size of zero, every position inside the slice reaches the
  remainder and the function panics with a division by zero; the guard turns away only
  the positions outside the slice (they return false before the remainder is computed)
  and the size 1. A negative size is not turned away either: the remainder is computed,
  is never \<open>k - 1\<close>, and the answer is whether the position is the last one.
\<close>

theorem Partition_zero_size_panics:
  "(0 \<le> p \<and> p < n \<longrightarrow> Partition p 0 n = Inl (Panic IntegerDivideByZero)) \<and>
   (p < 0 \<or> n \<le> p \<longrightarrow> Partition p 0 n = Inr False) \<and>
   (0 \<le> p \<and> p < n \<and> k < 0 \<longrightarrow> Partition p k n = Inr (p = n - 1))"
proof (intro conjI impI)
  assume "0 \<le> p \<and> p < n"
  then show "Partition p 0 n = Inl (Panic IntegerDivideByZero)" by (simp add: Partition_def)
next
  assume "p < 0 \<or> n \<le> p"
  then show "Partition p 0 n = Inr False" by (auto simp add: Partition_def)
next
  assume a: "0 \<le> p \<and> p < n \<and> k < 0"
  then have "go_rem p k = p mod (- k)" by (simp add: go_rem_negative_divisor)
  moreover have "0 \<le> p mod (- k)" using a by simp
  ultimately have "go_rem p k \<noteq> k - 1" using a by arith
  then show "Partition p k n = Inr (p = n - 1)" using a by (auto simp add: Partition_def)
qed

theorem Partition_zero_size_witness:
  "Partition 0 0 1 = Inl (Panic IntegerDivideByZero) \<and> Partition 3 0 8 = Inl (Panic IntegerDivideByZero)
   \<and> Partition 8 0 8 = Inr False \<and> Partition 7 (- 3) 8 = Inr True \<and> Partition 2 (- 3) 8 = Inr False"
  using Partition_zero_size_panics [of 0 1 0] Partition_zero_size_panics [of 3 8 0]
    Partition_zero_size_panics [of 8 8 0] Partition_zero_size_panics [of 7 8 "- 3"]
    Partition_zero_size_panics [of 2 8 "- 3"]
  by simp

section \<open>Marshalling\<close>

lemma spec_marshalLength: "marshalLength spec_helpers = marshalLength_spec"
  by (simp add: spec_helpers_def)

lemma length_bigEndian32: "length (bigEndian32 w) = 4"
  by (simp add: bigEndian32_def)

lemma marshalPDU_layout:
  "marshalPDU h packet pdus requestid =
    (case marshalVBL h pdus of
       Inl e1 \<Rightarrow> Inl e1
     | Inr vbl \<Rightarrow>
        (case marshalLength h (12 + length vbl) of
           Inl e2 \<Rightarrow> Inl e2
         | Inr lb \<Rightarrow>
            Inr ([PDUType packet] @ lb @ [2, 4] @ bigEndian32 requestid @
                 (if PDUType packet = GetBulkRequest
                  then [2, 1, NonRepeaters packet] @ [2, 1, MaxRepetitions packet]
                  else [2, 1, 0] @ [2, 1, 0]) @ vbl)))"
  by (simp add: marshalPDU_def Let_def length_bigEndian32 split: sum.splits)


lemma eval_sysDescr_varbind:
  "marshalVarbind spec_helpers sysDescr =
     Inr [0x30, 0x0C, 0x06, 0x08, 0x2B, 0x06, 0x01, 0x02, 0x01, 0x01, 0x01, 0x00, 0x05, 0x00]"
  by code_simp

lemma eval_sysDescr_VBL:
  "marshalVBL spec_helpers [sysDescr] =
     Inr [0x30, 0x0E, 0x30, 0x0C, 0x06, 0x08, 0x2B, 0x06, 0x01, 0x02, 0x01, 0x01, 0x01, 0x00, 0x05, 0x00]"
  by code_simp



text \<open>
  Claim C6. For a packet of type GetBulkRequest, \<open>marshalPDU\<close> writes
  \<open>NonRepeaters\<close> and \<open>MaxRepetitions\<close> as Integer TLVs of width 1 right after the
  request-id TLV: with the same varbinds and request id, a packet of any other type
  has the same bytes around them and its error-status and error-index TLVs in their
  place.
\<close>

theorem marshalPDU_GetBulk_fields:
  assumes "PDUType packet = GetBulkRequest"
    and "marshalPDU h packet pdus requestid = Inr out"
  shows "\<exists>lb vbl. marshalVBL h pdus = Inr vbl \<and> marshalLength h (12 + length vbl) = Inr lb \<and>
           out = [GetBulkRequest] @ lb @ [2, 4] @ bigEndian32 requestid @
                 [2, 1, NonRepeaters packet] @ [2, 1, MaxRepetitions packet] @ vbl \<and>
           (\<forall>other. PDUType other \<noteq> GetBulkRequest \<longrightarrow>
              marshalPDU h other pdus requestid =
                Inr ([PDUType other] @ lb @ [2, 4] @ bigEndian32 requestid @
                     [2, 1, 0] @ [2, 1, 0] @ vbl))"
  using assms by (auto simp add: marshalPDU_layout split: sum.splits)

text \<open>Scenario S3: non-repeaters 2 and max-repetitions 10.\<close>

theorem marshalPDU_GetBulk_fields_witness:
  "PDUType ((request_packet GetBulkRequest)\<lparr>NonRepeaters := 2, MaxRepetitions := 10\<rparr>) = GetBulkRequest \<and>
   marshalPDU spec_helpers ((request_packet GetBulkRequest)\<lparr>NonRepeaters := 2, MaxRepetitions := 10\<rparr>)
       [sysDescr] 1 =
     Inr [0xA5, 0x1C, 0x02, 0x04, 0x00, 0x00, 0x00, 0x01, 0x02, 0x01, 0x02, 0x02, 0x01, 0x0A,
          0x30, 0x0E, 0x30, 0x0C, 0x06, 0x08, 0x2B, 0x06, 0x01, 0x02, 0x01, 0x01, 0x01, 0x00, 0x05, 0x00] \<and>
   (\<exists>lb vbl.
      [0xA5, 0x1C, 0x02, 0x04, 0x00, 0x00, 0x00, 0x01, 0x02, 0x01, 0x02, 0x02, 0x01, 0x0A,
       0x30, 0x0E, 0x30, 0x0C, 0x06, 0x08, 0x2B, 0x06, 0x01, 0x02, 0x01, 0x01, 0x01, 0x00, 0x05, 0x00] =
      [GetBulkRequest] @ lb @ [2, 4] @ bigEndian32 1 @ [2, 1, 2] @ [2, 1, 10] @ vbl \<and>
      marshalPDU spec_helpers (request_packet GetRequest) [sysDescr] 1 =
        Inr ([GetRequest] @ lb @ [2, 4] @ bigEndian32 1 @ [2, 1, 0] @ [2, 1, 0] @ vbl))"
proof -
  let ?p = "(request_packet GetBulkRequest)\<lparr>NonRepeaters := 2, MaxRepetitions := 10\<rparr>"
  have t: "PDUType ?p = GetBulkRequest"
    by (simp add: request_packet_def)
  have m: "marshalPDU spec_helpers ?p [sysDescr] 1 =
     Inr [0xA5, 0x1C, 0x02, 0x04, 0x00, 0x00, 0x00, 0x01, 0x02, 0x01, 0x02, 0x02, 0x01, 0x0A,
          0x30, 0x0E, 0x30, 0x0C, 0x06, 0x08, 0x2B, 0x06, 0x01, 0x02, 0x01, 0x01, 0x01, 0x00, 0x05, 0x00]"
    by code_simp
  have o: "PDUType (request_packet GetRequest) \<noteq> GetBulkRequest"
    by (simp add: request_packet_def)
  from marshalPDU_GetBulk_fields [OF t m] obtain lb vbl where
    "[0xA5, 0x1C, 0x02, 0x04, 0x00, 0x00, 0x00, 0x01, 0x02, 0x01, 0x02, 0x02, 0x01, 0x0A,
       0x30, 0x0E, 0x30, 0x0C, 0x06, 0x08, 0x2B, 0x06, 0x01, 0x02, 0x01, 0x01, 0x01, 0x00, 0x05, 0x00] =
      [GetBulkRequest] @ lb @ [2, 4] @ bigEndian32 1 @ [2, 1, NonRepeaters ?p] @ [2, 1, MaxRepetitions ?p] @ vbl"
    and "\<forall>other. PDUType other \<noteq> GetBulkRequest \<longrightarrow>
              marshalPDU spec_helpers other [sysDescr] 1 =
                Inr ([PDUType other] @ lb @ [2, 4] @ bigEndian32 1 @ [2, 1, 0] @ [2, 1, 0] @ vbl)"
    by blast
  with o have "\<exists>lb vbl.
      [0xA5, 0x1C, 0x02, 0x04, 0x00, 0x00, 0x00, 0x01, 0x02, 0x01, 0x02, 0x02, 0x01, 0x0A,
       0x30, 0x0E, 0x30, 0x0C, 0x06, 0x08, 0x2B, 0x06, 0x01, 0x02, 0x01, 0x01, 0x01, 0x00, 0x05, 0x00] =
      [GetBulkRequest] @ lb @ [2, 4] @ bigEndian32 1 @ [2, 1, 2] @ [2, 1, 10] @ vbl \<and>
      marshalPDU spec_helpers (request_packet GetRequest) [sysDescr] 1 =
        Inr ([GetRequest] @ lb @ [2, 4] @ bigEndian32 1 @ [2, 1, 0] @ [2, 1, 0] @ vbl)"
    by (intro exI [of _ lb] exI [of _ vbl]) (simp add: request_packet_def)
  with t m show ?thesis by (simp only: simp_thms)
qed

text \<open>
  Claim C1 fails on the code: \<open>marshalVarbind\<close> writes an Integer as the single byte
  \<open>byte(v)\<close>. For the Go \<open>int\<close> 300 the value TLV is \<open>02 01 2C\<close>, which is the
  encoding of 44, whatever the OID and its encoding are; the minimal two's-complement
  encoding of 300 is \<open>02 02 01 2C\<close>. The second equation is the varbind of a \<open>Set\<close> of
  \<open>.1.3.6.1.2.1.1.4.0\<close> to 300.
\<close>

theorem marshalVarbind_Integer_300:
  "marshalVarbind h \<lparr>Name = n, Type = Integer, Value = GoInt 300\<rparr> =
     (case marshalOID h n of
        Inl e1 \<Rightarrow> Inl e1
      | Inr oid \<Rightarrow>
          Inr ([0x30, of_nat (length oid + 5), 0x06, of_nat (length oid)] @ oid @ [0x02, 0x01, 0x2C])) \<and>
   marshalVarbind spec_helpers sysContact_300 =
     Inr [0x30, 0x0D, 0x06, 0x08, 0x2B, 0x06, 0x01, 0x02, 0x01, 0x01, 0x04, 0x00, 0x02, 0x01, 0x2C]"
proof -
  have "marshalVarbind spec_helpers sysContact_300 =
     Inr [0x30, 0x0D, 0x06, 0x08, 0x2B, 0x06, 0x01, 0x02, 0x01, 0x01, 0x04, 0x00, 0x02, 0x01, 0x2C]"
    by code_simp
  moreover have "marshalVarbind h \<lparr>Name = n, Type = Integer, Value = GoInt 300\<rparr> =
     (case marshalOID h n of
        Inl e1 \<Rightarrow> Inl e1
      | Inr oid \<Rightarrow>
          Inr ([0x30, of_nat (length oid + 5), 0x06, of_nat (length oid)] @ oid @ [0x02, 0x01, 0x2C]))"
    by (simp add: marshalVarbind_def Let_def split: sum.splits)
  ultimately show ?thesis by (rule conjI [rotated])
qed

lemma long_community_packet_fields:
  "Version long_community_packet = Version2c"
  "PDUType long_community_packet = GetRequest"
  "Community long_community_packet = replicate 256 CHR ''a''"
  by (simp_all add: long_community_packet_def request_packet_def)

text \<open>
  Claim C3 fails on the code: the length byte of the community is
  \<open>uint8(len(packet.Community))\<close>, while the enclosing Sequence goes through
  \<open>marshalLength\<close>. For a community of 256 bytes the community TLV is \<open>04 00\<close>
  followed by the 256 bytes, whatever the varbinds and the helpers are; in the message
  of \<open>Get([".1.3.6.1.2.1.1.1.0"])\<close> it stands inside a Sequence whose length, 291, is
  right.
\<close>

theorem marshalMsg_community_256:
  "marshalMsg h long_community_packet pdus t rid =
     (case marshalPDU h long_community_packet pdus rid of
        Inl e1 \<Rightarrow> Inl e1
      | Inr pdu \<Rightarrow>
         (case marshalLength h (261 + length pdu) of
            Inl e2 \<Rightarrow> Inl e2
          | Inr lb \<Rightarrow>
              Inr ([0x30] @ lb @ [0x02, 0x01, 0x01, 0x04, 0x00] @ replicate 256 0x61 @ pdu))) \<and>
   marshalMsg spec_helpers long_community_packet [sysDescr] GetRequest 1 =
     Inr ([0x30, 0x82, 0x01, 0x23, 0x02, 0x01, 0x01, 0x04, 0x00] @ replicate 256 0x61 @
          [0xA0, 0x1C, 0x02, 0x04, 0x00, 0x00, 0x00, 0x01, 0x02, 0x01, 0x00, 0x02, 0x01, 0x00,
           0x30, 0x0E, 0x30, 0x0C, 0x06, 0x08, 0x2B, 0x06, 0x01, 0x02, 0x01, 0x01, 0x01, 0x00, 0x05, 0x00])"
proof -
  have g: "marshalMsg h long_community_packet pdus t rid =
     (case marshalPDU h long_community_packet pdus rid of
        Inl e1 \<Rightarrow> Inl e1
      | Inr pdu \<Rightarrow>
         (case marshalLength h (261 + length pdu) of
            Inl e2 \<Rightarrow> Inl e2
          | Inr lb \<Rightarrow>
              Inr ([0x30] @ lb @ [0x02, 0x01, 0x01, 0x04, 0x00] @ replicate 256 0x61 @ pdu)))" for h pdus t rid
    by (simp add: marshalMsg_def Let_def stringBytes_def long_community_packet_fields split: sum.splits)
  have m: "marshalPDU spec_helpers long_community_packet [sysDescr] 1 =
     Inr [0xA0, 0x1C, 0x02, 0x04, 0x00, 0x00, 0x00, 0x01, 0x02, 0x01, 0x00, 0x02, 0x01, 0x00,
          0x30, 0x0E, 0x30, 0x0C, 0x06, 0x08, 0x2B, 0x06, 0x01, 0x02, 0x01, 0x01, 0x01, 0x00, 0x05, 0x00]"
    by (simp add: marshalPDU_layout eval_sysDescr_VBL spec_marshalLength marshalLength_spec_def
          long_community_packet_fields bigEndian32_def)
  have l: "marshalLength spec_helpers 291 = Inr [0x82, 0x01, 0x23]"
    by code_simp
  have "marshalMsg spec_helpers long_community_packet [sysDescr] GetRequest 1 =
     Inr ([0x30, 0x82, 0x01, 0x23, 0x02, 0x01, 0x01, 0x04, 0x00] @ replicate 256 0x61 @
          [0xA0, 0x1C, 0x02, 0x04, 0x00, 0x00, 0x00, 0x01, 0x02, 0x01, 0x00, 0x02, 0x01, 0x00,
           0x30, 0x0E, 0x30, 0x0C, 0x06, 0x08, 0x2B, 0x06, 0x01, 0x02, 0x01, 0x01, 0x01, 0x00, 0x05, 0x00])"
    by (simp add: g m l)
  with g show ?thesis by (rule conjI)
qed

section \<open>The transaction engine\<close>

lemma send_loop_entered:
  "retries = 0 \<or> (now_retry e retries \<le> finalDeadline \<and> int retries \<le> Retries x) \<Longrightarrow>
   send_loop h e x pdus packetOut finalDeadline retries st =
     (case attempt h e x pdus packetOut retries st of
        Leave s' \<Rightarrow> s'
      | Continue s' \<Rightarrow> send_loop h e x pdus packetOut finalDeadline (Suc retries) s')"
  by (subst send_loop.simps) auto

lemma send_loop_rule:
  assumes init: "P retries st"
    and cont: "\<And>r s s'. P r s \<Longrightarrow> r = 0 \<or> (now_retry e r \<le> finalDeadline \<and> int r \<le> Retries x) \<Longrightarrow>
                 attempt h e x pdus packetOut r s = Continue s' \<Longrightarrow> P (Suc r) s'"
    and leave: "\<And>r s s'. P r s \<Longrightarrow> r = 0 \<or> (now_retry e r \<le> finalDeadline \<and> int r \<le> Retries x) \<Longrightarrow>
                 attempt h e x pdus packetOut r s = Leave s' \<Longrightarrow> Q s'"
    and timeout: "\<And>r s. P r s \<Longrightarrow> 0 < r \<Longrightarrow> finalDeadline < now_retry e r \<Longrightarrow>
                 Q (s\<lparr>result := None, err := Some (RequestTimeout (int r - 1))\<rparr>)"
    and exhausted: "\<And>r s. P r s \<Longrightarrow> 0 < r \<Longrightarrow> now_retry e r \<le> finalDeadline \<Longrightarrow> Retries x < int r \<Longrightarrow>
                 Q (s\<lparr>result := None\<rparr>)"
  shows "Q (send_loop h e x pdus packetOut finalDeadline retries st)"
  using init
proof (induction "nat (Retries x) + 2 - retries" arbitrary: retries st rule: less_induct)
  case less
  note prems = \<open>P retries st\<close>
  show ?case
  proof (cases "0 < retries \<and> finalDeadline < now_retry e retries")
    case True
    then have a: "0 < retries" and b: "finalDeadline < now_retry e retries" by simp_all
    have "Q (st\<lparr>result := None, err := Some (RequestTimeout (int retries - 1))\<rparr>)"
      by (rule timeout [OF prems a b])
    with a b show ?thesis by (subst send_loop.simps) simp
  next
    case nt: False
    show ?thesis
    proof (cases "0 < retries \<and> Retries x < int retries")
      case True
      with nt have a: "0 < retries" and b: "now_retry e retries \<le> finalDeadline"
        and c: "Retries x < int retries" by auto
      have "Q (st\<lparr>result := None\<rparr>)" by (rule exhausted [OF prems a b c])
      with a b c show ?thesis by (subst send_loop.simps) simp
    next
      case ne: False
      from nt ne have entered: "retries = 0 \<or> (now_retry e retries \<le> finalDeadline \<and> int retries \<le> Retries x)"
        by auto
      show ?thesis
      proof (cases "attempt h e x pdus packetOut retries st")
        case (Leave s')
        have "Q s'" by (rule leave [OF prems entered Leave])
        with Leave show ?thesis by (simp add: send_loop_entered [OF entered])
      next
        case (Continue s')
        have "P (Suc retries) s'" by (rule cont [OF prems entered Continue])
        moreover from entered have "nat (Retries x) + 2 - Suc retries < nat (Retries x) + 2 - retries"
          by auto
        ultimately have "Q (send_loop h e x pdus packetOut finalDeadline (Suc retries) s')"
          using less.hyps by blast
        with Continue show ?thesis by (simp add: send_loop_entered [OF entered])
      qed
    qed
  qed
qed



lemma attempt_effects:
  assumes "attempt h e x pdus packetOut r s = Leave s' \<or> attempt h e x pdus packetOut r s = Continue s'"
  shows "deadlines s' = deadlines s @ [now_request e r + go_quo (Timeout x) (Retries x + 1)]"
    and "allReqIDs s' = allReqIDs s @ [x_requestID s + 1]"
    and "x_requestID s' = x_requestID s + 1"
  using assms
  by (auto simp add: attempt_def Let_def split: sum.splits option.splits if_splits)

lemma attempt_Continue_err:
  "attempt h e x pdus packetOut r s = Continue s' \<Longrightarrow> err s' \<noteq> None"
  by (auto simp add: attempt_def Let_def split: sum.splits option.splits if_splits)

lemma attempt_Leave_valid:
  "attempt h e x pdus packetOut r s = Leave s' \<Longrightarrow> err s' = None \<Longrightarrow>
     \<exists>rp. result s' = Some rp \<and> Variables rp \<noteq> [] \<and> RequestID rp \<in> set (allReqIDs s')"
  by (auto simp add: attempt_def Let_def list_ex_iff split: sum.splits option.splits if_splits)

lemma attempt_written_Continue:
  "attempt h e x pdus packetOut r s = Continue s' \<Longrightarrow>
     \<exists>outBuf. marshalMsg h packetOut pdus (PDUType packetOut) (x_requestID s + 1) = Inr outBuf \<and>
       written s' = written s @ [outBuf]"
  by (auto simp add: attempt_def Let_def split: sum.splits option.splits if_splits)

lemma attempt_written_Leave:
  "attempt h e x pdus packetOut r s = Leave s' \<Longrightarrow>
     written s' = written s \<or>
     (\<exists>outBuf. marshalMsg h packetOut pdus (PDUType packetOut) (x_requestID s + 1) = Inr outBuf \<and>
       written s' = written s @ [outBuf])"
  by (auto simp add: attempt_def Let_def split: sum.splits option.splits if_splits)

lemma clamped_fields:
  "Timeout (if Retries x < 0 then x\<lparr>Retries := 0\<rparr> else x) = Timeout x"
  "Retries (if Retries x < 0 then x\<lparr>Retries := 0\<rparr> else x) = max 0 (Retries x)"
  "requestID (if Retries x < 0 then x\<lparr>Retries := 0\<rparr> else x) = requestID x"
  "Conn (if Retries x < 0 then x\<lparr>Retries := 0\<rparr> else x) = Conn x"
  by auto

lemma send_unfold:
  "send h e x pdus packetOut =
    (if Conn x = None then (initial_state x)\<lparr>err := Some ConnMissing\<rparr>
     else if makeslice_panics e (wrap64 (max 0 (Retries x) + 1)) then
       (initial_state x)\<lparr>err := Some (Recovered MakesliceCapOutOfRange)\<rparr>
     else send_loop h e (if Retries x < 0 then x\<lparr>Retries := 0\<rparr> else x) pdus packetOut
            (now_start e + Timeout x) 0 (initial_state x))"
  by (cases "Conn x") (auto simp add: send_def Let_def initial_state_def max_def)

text \<open>
  What the loop has done when it is left, for a loop that starts in a state in which
  \<open>retries\<close> attempts have been made: one deadline and one request id for every
  attempt, and the datagram of every attempt but perhaps the last.
\<close>

lemma send_loop_attempts:
  assumes r0: "0 \<le> Retries x"
    and st: "length (deadlines st) = retries" "length (allReqIDs st) = retries"
      "length (written st) = retries"
      "deadlines st = map (\<lambda>i. now_request e i + go_quo (Timeout x) (Retries x + 1)) [0..<retries]"
      "\<forall>i. 0 < i \<and> i < retries \<longrightarrow> now_retry e i \<le> finalDeadline"
      "x_requestID st = c + of_nat retries"
      "allReqIDs st = map (\<lambda>i. c + of_nat (Suc i)) [0..<retries]"
      "\<forall>i. i < retries \<longrightarrow>
         marshalMsg h packetOut pdus (PDUType packetOut) (c + of_nat (Suc i)) = Inr (written st ! i)"
      "int retries \<le> Retries x + 1"
  shows "(\<lambda>out. deadlines out =
           map (\<lambda>i. now_request e i + go_quo (Timeout x) (Retries x + 1)) [0..<length (deadlines out)] \<and>
         (\<forall>i. 0 < i \<and> i < length (deadlines out) \<longrightarrow> now_retry e i \<le> finalDeadline) \<and>
         length (allReqIDs out) = length (deadlines out) \<and>
         allReqIDs out = map (\<lambda>i. c + of_nat (Suc i)) [0..<length (deadlines out)] \<and>
         int (length (deadlines out)) \<le> Retries x + 1 \<and>
         length (written out) \<le> length (deadlines out) \<and>
         length (deadlines out) \<le> length (written out) + 1 \<and>
         (\<forall>i. i < length (written out) \<longrightarrow>
            marshalMsg h packetOut pdus (PDUType packetOut) (c + of_nat (Suc i)) = Inr (written out ! i)) \<and>
         0 < length (deadlines out))
         (send_loop h e x pdus packetOut finalDeadline retries st)"
proof (rule send_loop_rule [where P = "\<lambda>r s. length (deadlines s) = r \<and> length (allReqIDs s) = r \<and>
          length (written s) = r \<and>
          deadlines s = map (\<lambda>i. now_request e i + go_quo (Timeout x) (Retries x + 1)) [0..<r] \<and>
          (\<forall>i. 0 < i \<and> i < r \<longrightarrow> now_retry e i \<le> finalDeadline) \<and>
          x_requestID s = c + of_nat r \<and>
          allReqIDs s = map (\<lambda>i. c + of_nat (Suc i)) [0..<r] \<and>
          (\<forall>i. i < r \<longrightarrow>
             marshalMsg h packetOut pdus (PDUType packetOut) (c + of_nat (Suc i)) = Inr (written s ! i)) \<and>
          int r \<le> Retries x + 1"])
  show "length (deadlines st) = retries \<and> length (allReqIDs st) = retries \<and>
          length (written st) = retries \<and>
          deadlines st = map (\<lambda>i. now_request e i + go_quo (Timeout x) (Retries x + 1)) [0..<retries] \<and>
          (\<forall>i. 0 < i \<and> i < retries \<longrightarrow> now_retry e i \<le> finalDeadline) \<and>
          x_requestID st = c + of_nat retries \<and>
          allReqIDs st = map (\<lambda>i. c + of_nat (Suc i)) [0..<retries] \<and>
          (\<forall>i. i < retries \<longrightarrow>
             marshalMsg h packetOut pdus (PDUType packetOut) (c + of_nat (Suc i)) = Inr (written st ! i)) \<and>
          int retries \<le> Retries x + 1"
    using st by simp
next
  fix r s s'
  assume p: "length (deadlines s) = r \<and> length (allReqIDs s) = r \<and>
          length (written s) = r \<and>
          deadlines s = map (\<lambda>i. now_request e i + go_quo (Timeout x) (Retries x + 1)) [0..<r] \<and>
          (\<forall>i. 0 < i \<and> i < r \<longrightarrow> now_retry e i \<le> finalDeadline) \<and>
          x_requestID s = c + of_nat r \<and>
          allReqIDs s = map (\<lambda>i. c + of_nat (Suc i)) [0..<r] \<and>
          (\<forall>i. i < r \<longrightarrow>
             marshalMsg h packetOut pdus (PDUType packetOut) (c + of_nat (Suc i)) = Inr (written s ! i)) \<and>
          int r \<le> Retries x + 1"
    and en: "r = 0 \<or> now_retry e r \<le> finalDeadline \<and> int r \<le> Retries x"
    and a: "attempt h e x pdus packetOut r s = Continue s'"
  from a have eff: "deadlines s' = deadlines s @ [now_request e r + go_quo (Timeout x) (Retries x + 1)]"
      "allReqIDs s' = allReqIDs s @ [x_requestID s + 1]" "x_requestID s' = x_requestID s + 1"
    using attempt_effects [of h e x pdus packetOut r s s'] by simp_all
  from a obtain outBuf where w: "marshalMsg h packetOut pdus (PDUType packetOut) (x_requestID s + 1) = Inr outBuf"
      "written s' = written s @ [outBuf]"
    using attempt_written_Continue by blast
  from p have rid: "x_requestID s + 1 = c + of_nat (Suc r)" by (simp add: algebra_simps)
  from en p have now: "\<forall>i. 0 < i \<and> i < Suc r \<longrightarrow> now_retry e i \<le> finalDeadline"
    by (auto simp add: less_Suc_eq)
  from w(1) have w': "marshalMsg h packetOut pdus (PDUType packetOut) (c + of_nat (Suc r)) = Inr outBuf"
    unfolding rid .
  from p w' w(2) have wr: "\<forall>i. i < Suc r \<longrightarrow>
      marshalMsg h packetOut pdus (PDUType packetOut) (c + of_nat (Suc i)) = Inr (written s' ! i)"
    by (auto simp add: less_Suc_eq nth_append simp del: of_nat_Suc)
  from en r0 have bound: "int (Suc r) \<le> Retries x + 1" by auto
  from p eff have ids: "allReqIDs s' = map (\<lambda>i. c + of_nat (Suc i)) [0..<Suc r]"
    by (simp add: algebra_simps)
  from p eff w(2) rid now wr bound ids
  show "length (deadlines s') = Suc r \<and> length (allReqIDs s') = Suc r \<and>
          length (written s') = Suc r \<and>
          deadlines s' = map (\<lambda>i. now_request e i + go_quo (Timeout x) (Retries x + 1)) [0..<Suc r] \<and>
          (\<forall>i. 0 < i \<and> i < Suc r \<longrightarrow> now_retry e i \<le> finalDeadline) \<and>
          x_requestID s' = c + of_nat (Suc r) \<and>
          allReqIDs s' = map (\<lambda>i. c + of_nat (Suc i)) [0..<Suc r] \<and>
          (\<forall>i. i < Suc r \<longrightarrow>
             marshalMsg h packetOut pdus (PDUType packetOut) (c + of_nat (Suc i)) = Inr (written s' ! i)) \<and>
          int (Suc r) \<le> Retries x + 1"
    by simp
next
  fix r s s'
  assume p: "length (deadlines s) = r \<and> length (allReqIDs s) = r \<and>
          length (written s) = r \<and>
          deadlines s = map (\<lambda>i. now_request e i + go_quo (Timeout x) (Retries x + 1)) [0..<r] \<and>
          (\<forall>i. 0 < i \<and> i < r \<longrightarrow> now_retry e i \<le> finalDeadline) \<and>
          x_requestID s = c + of_nat r \<and>
          allReqIDs s = map (\<lambda>i. c + of_nat (Suc i)) [0..<r] \<and>
          (\<forall>i. i < r \<longrightarrow>
             marshalMsg h packetOut pdus (PDUType packetOut) (c + of_nat (Suc i)) = Inr (written s ! i)) \<and>
          int r \<le> Retries x + 1"
    and en: "r = 0 \<or> now_retry e r \<le> finalDeadline \<and> int r \<le> Retries x"
    and a: "attempt h e x pdus packetOut r s = Leave s'"
  from a have eff: "deadlines s' = deadlines s @ [now_request e r + go_quo (Timeout x) (Retries x + 1)]"
      "allReqIDs s' = allReqIDs s @ [x_requestID s + 1]"
    using attempt_effects [of h e x pdus packetOut r s s'] by simp_all
  from p have rid: "x_requestID s + 1 = c + of_nat (Suc r)" by (simp add: algebra_simps)
  from en p have now: "\<forall>i. 0 < i \<and> i < Suc r \<longrightarrow> now_retry e i \<le> finalDeadline"
    by (auto simp add: less_Suc_eq)
  from en r0 have bound: "int (Suc r) \<le> Retries x + 1" by auto
  from attempt_written_Leave [OF a]
  have "written s' = written s \<or>
     (\<exists>outBuf. marshalMsg h packetOut pdus (PDUType packetOut) (c + of_nat (Suc r)) = Inr outBuf \<and>
       written s' = written s @ [outBuf])"
    unfolding rid .
  with p
  have wr: "length (written s') \<le> Suc r \<and> Suc r \<le> length (written s') + 1 \<and>
      (\<forall>i. i < length (written s') \<longrightarrow>
         marshalMsg h packetOut pdus (PDUType packetOut) (c + of_nat (Suc i)) = Inr (written s' ! i))"
    by (auto simp add: less_Suc_eq nth_append simp del: of_nat_Suc)
  from p eff have ids: "allReqIDs s' = map (\<lambda>i. c + of_nat (Suc i)) [0..<Suc r]"
    by (simp add: algebra_simps)
  from p eff have len: "length (deadlines s') = Suc r" by simp
  from p eff now bound wr ids len
  show "deadlines s' =
           map (\<lambda>i. now_request e i + go_quo (Timeout x) (Retries x + 1)) [0..<length (deadlines s')] \<and>
         (\<forall>i. 0 < i \<and> i < length (deadlines s') \<longrightarrow> now_retry e i \<le> finalDeadline) \<and>
         length (allReqIDs s') = length (deadlines s') \<and>
         allReqIDs s' = map (\<lambda>i. c + of_nat (Suc i)) [0..<length (deadlines s')] \<and>
         int (length (deadlines s')) \<le> Retries x + 1 \<and>
         length (written s') \<le> length (deadlines s') \<and>
         length (deadlines s') \<le> length (written s') + 1 \<and>
         (\<forall>i. i < length (written s') \<longrightarrow>
            marshalMsg h packetOut pdus (PDUType packetOut) (c + of_nat (Suc i)) = Inr (written s' ! i)) \<and>
         0 < length (deadlines s')"
    by simp
qed auto

text \<open>
  Claim C4, as amended. On every attempt \<open>send\<close> sets the deadline of the connection to
  exactly the clock read in that attempt plus \<open>Timeout / (Retries + 1)\<close> (Go's
  truncating division, a negative \<open>Retries\<close> counting as 0), whatever the final deadline
  \<open>now + Timeout\<close> of the start is: no minimum is taken. The final deadline is only
  consulted before a retry, with a clock reading of its own: an attempt after the first
  is made only if that reading is not after the final deadline. A call makes no attempt exactly when the session
  has no connection or the allocation of \<open>allReqIDs\<close> panics; otherwise it makes at
  least one attempt and at most \<open>Retries + 1\<close>. Every attempt has one deadline and one
  request id, the next value of the session's counter, and writes at most one datagram,
  the message marshalled with its request id; only the last attempt can be without a
  datagram.
\<close>

theorem send_deadlines:
  "(let out = send h e x pdus packetOut;
        n = length (deadlines out);
        perAttempt = go_quo (Timeout x) (max 0 (Retries x) + 1)
    in deadlines out = map (\<lambda>i. now_request e i + perAttempt) [0..<n] \<and>
       (\<forall>i. 0 < i \<and> i < n \<longrightarrow> now_retry e i \<le> now_start e + Timeout x) \<and>
       length (allReqIDs out) = n \<and>
       allReqIDs out = map (\<lambda>i. requestID x + of_nat (Suc i)) [0..<n] \<and>
       int n \<le> max 0 (Retries x) + 1 \<and>
       length (written out) \<le> n \<and> n \<le> length (written out) + 1 \<and>
       (\<forall>i. i < length (written out) \<longrightarrow>
          marshalMsg h packetOut pdus (PDUType packetOut) (requestID x + of_nat (Suc i)) =
            Inr (written out ! i)) \<and>
       (n = 0) = (Conn x = None \<or> makeslice_panics e (wrap64 (max 0 (Retries x) + 1))))"
proof (cases "Conn x = None \<or> makeslice_panics e (wrap64 (max 0 (Retries x) + 1))")
  case True
  then have "send h e x pdus packetOut = (initial_state x)\<lparr>err := Some ConnMissing\<rparr> \<or>
      send h e x pdus packetOut = (initial_state x)\<lparr>err := Some (Recovered MakesliceCapOutOfRange)\<rparr>"
    by (auto simp add: send_unfold)
  with True show ?thesis by (auto simp add: Let_def initial_state_def)
next
  case False
  let ?x = "if Retries x < 0 then x\<lparr>Retries := 0\<rparr> else x"
  have s: "send h e x pdus packetOut =
             send_loop h e ?x pdus packetOut (now_start e + Timeout x) 0 (initial_state x)"
    using False by (auto simp add: send_unfold)
  have "(\<lambda>out. deadlines out =
           map (\<lambda>i. now_request e i + go_quo (Timeout ?x) (Retries ?x + 1)) [0..<length (deadlines out)] \<and>
         (\<forall>i. 0 < i \<and> i < length (deadlines out) \<longrightarrow> now_retry e i \<le> now_start e + Timeout x) \<and>
         length (allReqIDs out) = length (deadlines out) \<and>
         allReqIDs out = map (\<lambda>i. requestID x + of_nat (Suc i)) [0..<length (deadlines out)] \<and>
         int (length (deadlines out)) \<le> Retries ?x + 1 \<and>
         length (written out) \<le> length (deadlines out) \<and>
         length (deadlines out) \<le> length (written out) + 1 \<and>
         (\<forall>i. i < length (written out) \<longrightarrow>
            marshalMsg h packetOut pdus (PDUType packetOut) (requestID x + of_nat (Suc i)) =
              Inr (written out ! i)) \<and>
         0 < length (deadlines out))
         (send_loop h e ?x pdus packetOut (now_start e + Timeout x) 0 (initial_state x))"
    by (rule send_loop_attempts) (simp_all add: initial_state_def)
  with False show ?thesis unfolding s clamped_fields Let_def by simp
qed

text \<open>
  The claim as it is written fails in scenario S4 (timeout 900, two retries, an agent
  that never replies) as soon as the clock moves between the attempts: the third
  attempt starts at 602, before the final deadline 900, and its deadline is 902, not
  the minimum of 902 and 900.
\<close>

theorem send_deadlines_counterexample:
  "deadlines (send spec_helpers silent_agent (session 900 2 0) [sysDescr] (request_packet GetRequest)) ! 2 = 902 \<and>
   min (now_request silent_agent 2 + go_quo (Timeout (session 900 2 0)) (Retries (session 900 2 0) + 1))
       (now_start silent_agent + Timeout (session 900 2 0)) = 900"
  by code_simp

lemma eval_silent_agent:
  "deadlines (send spec_helpers silent_agent (session 900 2 0) [sysDescr] (request_packet GetRequest)) =
     [300, 601, 902]"
  "written (send spec_helpers silent_agent (session 900 2 0) [sysDescr] (request_packet GetRequest)) =
     [get_datagram 1, get_datagram 2, get_datagram 3]"
  by code_simp+

text \<open>Scenario S4 with a clock that moves: three attempts, each with its deadline and datagram.\<close>

theorem send_deadlines_witness:
  "deadlines (send spec_helpers silent_agent (session 900 2 0) [sysDescr] (request_packet GetRequest)) =
     [300, 601, 902] \<and>
   written (send spec_helpers silent_agent (session 900 2 0) [sysDescr] (request_packet GetRequest)) =
     [get_datagram 1, get_datagram 2, get_datagram 3] \<and>
   deadlines (send spec_helpers silent_agent (session 900 2 0) [sysDescr] (request_packet GetRequest)) ! 2 =
     now_request silent_agent 2 + go_quo (Timeout (session 900 2 0)) (max 0 (Retries (session 900 2 0)) + 1) \<and>
   now_retry silent_agent 2 \<le> now_start silent_agent + Timeout (session 900 2 0) \<and>
   length (allReqIDs (send spec_helpers silent_agent (session 900 2 0) [sysDescr] (request_packet GetRequest))) = 3 \<and>
   marshalMsg spec_helpers (request_packet GetRequest) [sysDescr] (PDUType (request_packet GetRequest))
     (requestID (session 900 2 0) + of_nat (Suc 2)) = Inr (get_datagram 3) \<and>
   Conn (session 900 2 0) \<noteq> None \<and>
   \<not> makeslice_panics silent_agent (wrap64 (max 0 (Retries (session 900 2 0)) + 1))"
proof -
  let ?S = "send spec_helpers silent_agent (session 900 2 0) [sysDescr] (request_packet GetRequest)"
  note t = send_deadlines [of spec_helpers silent_agent "session 900 2 0" "[sysDescr]"
      "request_packet GetRequest", unfolded Let_def]
  have len: "length (deadlines ?S) = 3" by (simp add: eval_silent_agent)
  have wlen: "length (written ?S) = 3" by (simp add: eval_silent_agent)
  from t have "deadlines ?S =
     map (\<lambda>i. now_request silent_agent i + go_quo (Timeout (session 900 2 0)) (max 0 (Retries (session 900 2 0)) + 1))
       [0..<length (deadlines ?S)]" by (rule conjunct1)
  then have "deadlines ?S ! 2 =
     map (\<lambda>i. now_request silent_agent i + go_quo (Timeout (session 900 2 0)) (max 0 (Retries (session 900 2 0)) + 1))
       [0..<3] ! 2" unfolding len by simp
  then have a: "deadlines ?S ! 2 =
     now_request silent_agent 2 + go_quo (Timeout (session 900 2 0)) (max 0 (Retries (session 900 2 0)) + 1)"
    by (simp add: numeral_2_eq_2)
  from t have "\<forall>i. 0 < i \<and> i < length (deadlines ?S) \<longrightarrow>
      now_retry silent_agent i \<le> now_start silent_agent + Timeout (session 900 2 0)" by blast
  then have b: "now_retry silent_agent 2 \<le> now_start silent_agent + Timeout (session 900 2 0)"
    unfolding len by simp
  from t have "length (allReqIDs ?S) = length (deadlines ?S)" by blast
  then have c: "length (allReqIDs ?S) = 3" unfolding len .
  from t have "\<forall>i. i < length (written ?S) \<longrightarrow>
          marshalMsg spec_helpers (request_packet GetRequest) [sysDescr] (PDUType (request_packet GetRequest))
            (requestID (session 900 2 0) + of_nat (Suc i)) = Inr (written ?S ! i)" by blast
  moreover have "2 < length (written ?S)" unfolding wlen by simp
  ultimately have "marshalMsg spec_helpers (request_packet GetRequest) [sysDescr] (PDUType (request_packet GetRequest))
            (requestID (session 900 2 0) + of_nat (Suc 2)) = Inr (written ?S ! 2)"
    by blast
  then have d: "marshalMsg spec_helpers (request_packet GetRequest) [sysDescr] (PDUType (request_packet GetRequest))
     (requestID (session 900 2 0) + of_nat (Suc 2)) = Inr (get_datagram 3)"
    by (simp add: eval_silent_agent)
  from t have "(length (deadlines ?S) = 0) =
      (Conn (session 900 2 0) = None \<or>
       makeslice_panics silent_agent (wrap64 (max 0 (Retries (session 900 2 0)) + 1)))" by blast
  then have e: "Conn (session 900 2 0) \<noteq> None \<and>
      \<not> makeslice_panics silent_agent (wrap64 (max 0 (Retries (session 900 2 0)) + 1))"
    unfolding len by simp
  from eval_silent_agent a b c d e show ?thesis by (intro conjI) simp_all
qed

lemma send_loop_issued:
  assumes "allReqIDs st = map (\<lambda>i. c + of_nat (Suc i)) [0..<retries]"
    and "x_requestID st = c + of_nat retries"
    and "0 < retries \<longrightarrow> err st \<noteq> None"
  shows "(\<lambda>out. (err out = None \<longrightarrow>
             (\<exists>rp. result out = Some rp \<and> Variables rp \<noteq> [] \<and> RequestID rp \<in> set (allReqIDs out))) \<and>
           allReqIDs out = map (\<lambda>i. c + of_nat (Suc i)) [0..<length (allReqIDs out)])
         (send_loop h e x pdus packetOut finalDeadline retries st)"
proof (rule send_loop_rule [where P = "\<lambda>r s. allReqIDs s = map (\<lambda>i. c + of_nat (Suc i)) [0..<r] \<and>
          x_requestID s = c + of_nat r \<and> (0 < r \<longrightarrow> err s \<noteq> None)"])
  show "allReqIDs st = map (\<lambda>i. c + of_nat (Suc i)) [0..<retries] \<and>
          x_requestID st = c + of_nat retries \<and> (0 < retries \<longrightarrow> err st \<noteq> None)"
    using assms by simp
next
  fix r s s'
  assume p: "allReqIDs s = map (\<lambda>i. c + of_nat (Suc i)) [0..<r] \<and>
          x_requestID s = c + of_nat r \<and> (0 < r \<longrightarrow> err s \<noteq> None)"
    and a: "attempt h e x pdus packetOut r s = Continue s'"
  from a have eff: "allReqIDs s' = allReqIDs s @ [x_requestID s + 1]" "x_requestID s' = x_requestID s + 1"
    using attempt_effects [of h e x pdus packetOut r s s'] by simp_all
  from a have "err s' \<noteq> None" by (rule attempt_Continue_err)
  with p eff show "allReqIDs s' = map (\<lambda>i. c + of_nat (Suc i)) [0..<Suc r] \<and>
          x_requestID s' = c + of_nat (Suc r) \<and> (0 < Suc r \<longrightarrow> err s' \<noteq> None)"
    by (simp add: algebra_simps)
next
  fix r s s'
  assume p: "allReqIDs s = map (\<lambda>i. c + of_nat (Suc i)) [0..<r] \<and>
          x_requestID s = c + of_nat r \<and> (0 < r \<longrightarrow> err s \<noteq> None)"
    and a: "attempt h e x pdus packetOut r s = Leave s'"
  from a have eff: "allReqIDs s' = allReqIDs s @ [x_requestID s + 1]"
    using attempt_effects [of h e x pdus packetOut r s s'] by simp_all
  with p have "allReqIDs s' = map (\<lambda>i. c + of_nat (Suc i)) [0..<length (allReqIDs s')]"
    by (simp add: algebra_simps)
  moreover have "err s' = None \<longrightarrow>
             (\<exists>rp. result s' = Some rp \<and> Variables rp \<noteq> [] \<and> RequestID rp \<in> set (allReqIDs s'))"
    using attempt_Leave_valid [OF a] by blast
  ultimately show "(err s' = None \<longrightarrow>
             (\<exists>rp. result s' = Some rp \<and> Variables rp \<noteq> [] \<and> RequestID rp \<in> set (allReqIDs s'))) \<and>
           allReqIDs s' = map (\<lambda>i. c + of_nat (Suc i)) [0..<length (allReqIDs s')]"
    by simp
qed auto

lemma attempt_decoded:
  assumes "marshalMsg h packetOut pdus (PDUType packetOut) (x_requestID st + 1) = Inr outBuf"
    and "conn_Write e retries outBuf = None"
    and "conn_Read e retries = Inr resp"
    and "unmarshal h resp = Inr r"
  shows "attempt h e x pdus packetOut retries st =
     (let st' = st\<lparr>err := None,
                    deadlines := deadlines st @ [now_request e retries + go_quo (Timeout x) (Retries x + 1)],
                    x_requestID := x_requestID st + 1,
                    allReqIDs := allReqIDs st @ [x_requestID st + 1],
                    written := written st @ [outBuf],
                    result := Some r\<rparr>
      in if Variables r = [] then Continue (st'\<lparr>err := Some DecodeNil\<rparr>)
         else if RequestID r \<in> set (allReqIDs st) \<or> RequestID r = x_requestID st + 1 then Leave st'
         else Continue (st'\<lparr>err := Some OutOfOrder\<rparr>))"
  using assms by (auto simp add: attempt_def Let_def list_ex_iff)

text \<open>
  Claim C5, as amended. A call of \<open>send\<close> returns a response with a nil error only if
  the response has at least one variable and its request id is one of the ids that the
  attempts of this call have issued (the counter values \<open>requestID + 1\<close>,
  \<open>requestID + 2\<close>, ...). In an attempt whose datagram is written, answered and
  decoded, the variables are tested first: a response without variables is recorded as
  \<open>DecodeNil\<close> and the loop goes on, whatever its request id; a response with variables
  whose id is the id of this attempt or of an earlier one is returned; and a response
  with variables whose id is none of them is recorded as \<open>OutOfOrder\<close> and the loop
  goes on. \<open>Leave\<close> is what the loop returns and \<open>Continue\<close> is the next iteration.
\<close>

theorem send_response_matching:
  "(err (send h e x pdus packetOut) = None \<longrightarrow>
      (\<exists>rp. result (send h e x pdus packetOut) = Some rp \<and> Variables rp \<noteq> [] \<and>
            RequestID rp \<in> set (allReqIDs (send h e x pdus packetOut)))) \<and>
   allReqIDs (send h e x pdus packetOut) =
     map (\<lambda>i. requestID x + of_nat (Suc i)) [0..<length (allReqIDs (send h e x pdus packetOut))] \<and>
   (marshalMsg h packetOut pdus (PDUType packetOut) (x_requestID st + 1) = Inr outBuf \<and>
    conn_Write e retries outBuf = None \<and> conn_Read e retries = Inr resp \<and> unmarshal h resp = Inr r \<longrightarrow>
      attempt h e x pdus packetOut retries st =
       (let st' = st\<lparr>err := None,
                      deadlines := deadlines st @ [now_request e retries + go_quo (Timeout x) (Retries x + 1)],
                      x_requestID := x_requestID st + 1,
                      allReqIDs := allReqIDs st @ [x_requestID st + 1],
                      written := written st @ [outBuf],
                      result := Some r\<rparr>
        in if Variables r = [] then Continue (st'\<lparr>err := Some DecodeNil\<rparr>)
           else if RequestID r \<in> set (allReqIDs st) \<or> RequestID r = x_requestID st + 1 then Leave st'
           else Continue (st'\<lparr>err := Some OutOfOrder\<rparr>))) \<and>
   (retries = 0 \<or> (now_retry e retries \<le> finalDeadline \<and> int retries \<le> Retries x) \<longrightarrow>
      send_loop h e x pdus packetOut finalDeadline retries st =
        (case attempt h e x pdus packetOut retries st of
           Leave s' \<Rightarrow> s'
         | Continue s' \<Rightarrow> send_loop h e x pdus packetOut finalDeadline (Suc retries) s'))"
proof -
  have whole: "(err (send h e x pdus packetOut) = None \<longrightarrow>
      (\<exists>rp. result (send h e x pdus packetOut) = Some rp \<and> Variables rp \<noteq> [] \<and>
            RequestID rp \<in> set (allReqIDs (send h e x pdus packetOut)))) \<and>
   allReqIDs (send h e x pdus packetOut) =
     map (\<lambda>i. requestID x + of_nat (Suc i)) [0..<length (allReqIDs (send h e x pdus packetOut))]"
  proof (cases "Conn x = None \<or> makeslice_panics e (wrap64 (max 0 (Retries x) + 1))")
    case True
    then have "send h e x pdus packetOut = (initial_state x)\<lparr>err := Some ConnMissing\<rparr> \<or>
        send h e x pdus packetOut = (initial_state x)\<lparr>err := Some (Recovered MakesliceCapOutOfRange)\<rparr>"
      by (auto simp add: send_unfold)
    then show ?thesis by (auto simp add: initial_state_def)
  next
    case False
    let ?x = "if Retries x < 0 then x\<lparr>Retries := 0\<rparr> else x"
    have s: "send h e x pdus packetOut =
               send_loop h e ?x pdus packetOut (now_start e + Timeout x) 0 (initial_state x)"
      using False by (auto simp add: send_unfold)
    have "(\<lambda>out. (err out = None \<longrightarrow>
             (\<exists>rp. result out = Some rp \<and> Variables rp \<noteq> [] \<and> RequestID rp \<in> set (allReqIDs out))) \<and>
           allReqIDs out = map (\<lambda>i. requestID x + of_nat (Suc i)) [0..<length (allReqIDs out)])
         (send_loop h e ?x pdus packetOut (now_start e + Timeout x) 0 (initial_state x))"
      by (rule send_loop_issued) (simp_all add: initial_state_def)
    then show ?thesis unfolding s by simp
  qed
  moreover have "marshalMsg h packetOut pdus (PDUType packetOut) (x_requestID st + 1) = Inr outBuf \<and>
    conn_Write e retries outBuf = None \<and> conn_Read e retries = Inr resp \<and> unmarshal h resp = Inr r \<longrightarrow>
      attempt h e x pdus packetOut retries st =
       (let st' = st\<lparr>err := None,
                      deadlines := deadlines st @ [now_request e retries + go_quo (Timeout x) (Retries x + 1)],
                      x_requestID := x_requestID st + 1,
                      allReqIDs := allReqIDs st @ [x_requestID st + 1],
                      written := written st @ [outBuf],
                      result := Some r\<rparr>
        in if Variables r = [] then Continue (st'\<lparr>err := Some DecodeNil\<rparr>)
           else if RequestID r \<in> set (allReqIDs st) \<or> RequestID r = x_requestID st + 1 then Leave st'
           else Continue (st'\<lparr>err := Some OutOfOrder\<rparr>))"
    using attempt_decoded [of h packetOut pdus st outBuf e retries resp r x] by blast
  moreover have "retries = 0 \<or> (now_retry e retries \<le> finalDeadline \<and> int retries \<le> Retries x) \<longrightarrow>
      send_loop h e x pdus packetOut finalDeadline retries st =
        (case attempt h e x pdus packetOut retries st of
           Leave s' \<Rightarrow> s'
         | Continue s' \<Rightarrow> send_loop h e x pdus packetOut finalDeadline (Suc retries) s')"
    using send_loop_entered [of retries e finalDeadline x h pdus packetOut st] by blast
  ultimately show ?thesis by blast
qed

lemma eval_late_reply:
  "err (send spec_helpers late_reply_agent (session 900 2 4) [sysDescr] (request_packet GetRequest)) = None"
  "result (send spec_helpers late_reply_agent (session 900 2 4) [sysDescr] (request_packet GetRequest)) =
     Some (hello_packet 5)"
  "allReqIDs (send spec_helpers late_reply_agent (session 900 2 4) [sysDescr] (request_packet GetRequest)) =
     [5, 6]"
  by code_simp+

lemma eval_second_request:
  "marshalMsg spec_helpers (request_packet GetRequest) [sysDescr] (PDUType (request_packet GetRequest))
     (x_requestID after_first_timeout + 1) = Inr (get_datagram 6)"
  by code_simp

lemma eval_hello_5: "unmarshal spec_helpers (hello_reply 5) = Inr (hello_packet 5)"
  by (simp add: spec_helpers_def unmarshal_scenarios_def)

text \<open>Scenario S5: request 5 times out, request 6 is answered by the reply to request 5.\<close>

theorem send_response_matching_witness:
  "err (send spec_helpers late_reply_agent (session 900 2 4) [sysDescr] (request_packet GetRequest)) = None \<and>
   result (send spec_helpers late_reply_agent (session 900 2 4) [sysDescr] (request_packet GetRequest)) =
     Some (hello_packet 5) \<and>
   RequestID (hello_packet 5) \<in>
     set (allReqIDs (send spec_helpers late_reply_agent (session 900 2 4) [sysDescr] (request_packet GetRequest))) \<and>
   allReqIDs (send spec_helpers late_reply_agent (session 900 2 4) [sysDescr] (request_packet GetRequest)) =
     [5, 6] \<and>
   marshalMsg spec_helpers (request_packet GetRequest) [sysDescr] (PDUType (request_packet GetRequest))
     (x_requestID after_first_timeout + 1) = Inr (get_datagram 6) \<and>
   conn_Write late_reply_agent 1 (get_datagram 6) = None \<and>
   conn_Read late_reply_agent 1 = Inr (hello_reply 5) \<and>
   unmarshal spec_helpers (hello_reply 5) = Inr (hello_packet 5) \<and>
   attempt spec_helpers late_reply_agent (session 900 2 4) [sysDescr] (request_packet GetRequest) 1
       after_first_timeout =
     Leave \<lparr>result = Some (hello_packet 5), err = None, allReqIDs = [5, 6], x_requestID = 6,
            deadlines = [300, 600], written = [get_datagram 5, get_datagram 6]\<rparr> \<and>
   send_loop spec_helpers late_reply_agent (session 900 2 4) [sysDescr] (request_packet GetRequest) 900 1
       after_first_timeout =
     \<lparr>result = Some (hello_packet 5), err = None, allReqIDs = [5, 6], x_requestID = 6,
      deadlines = [300, 600], written = [get_datagram 5, get_datagram 6]\<rparr>"
proof -
  let ?S = "send spec_helpers late_reply_agent (session 900 2 4) [sysDescr] (request_packet GetRequest)"
  note t = send_response_matching [where h = spec_helpers and e = late_reply_agent
      and x = "session 900 2 4" and pdus = "[sysDescr]" and packetOut = "request_packet GetRequest"
      and st = after_first_timeout and outBuf = "get_datagram 6" and retries = 1
      and resp = "hello_reply 5" and r = "hello_packet 5" and finalDeadline = 900]
  have w: "conn_Write late_reply_agent 1 (get_datagram 6) = None"
    by (simp add: late_reply_agent_def)
  have rd: "conn_Read late_reply_agent 1 = Inr (hello_reply 5)"
    by (simp add: late_reply_agent_def)
  from t eval_late_reply(1) have "\<exists>rp. result ?S = Some rp \<and> Variables rp \<noteq> [] \<and>
      RequestID rp \<in> set (allReqIDs ?S)" by blast
  then have mem: "RequestID (hello_packet 5) \<in> set (allReqIDs ?S)"
    by (auto simp add: eval_late_reply(2))
  from t eval_second_request w rd eval_hello_5
  have "attempt spec_helpers late_reply_agent (session 900 2 4) [sysDescr] (request_packet GetRequest) 1
       after_first_timeout =
       (let st' = after_first_timeout\<lparr>err := None,
                      deadlines := deadlines after_first_timeout @
                        [now_request late_reply_agent 1 +
                         go_quo (Timeout (session 900 2 4)) (Retries (session 900 2 4) + 1)],
                      x_requestID := x_requestID after_first_timeout + 1,
                      allReqIDs := allReqIDs after_first_timeout @ [x_requestID after_first_timeout + 1],
                      written := written after_first_timeout @ [get_datagram 6],
                      result := Some (hello_packet 5)\<rparr>
        in if Variables (hello_packet 5) = [] then Continue (st'\<lparr>err := Some DecodeNil\<rparr>)
           else if RequestID (hello_packet 5) \<in> set (allReqIDs after_first_timeout) \<or>
                   RequestID (hello_packet 5) = x_requestID after_first_timeout + 1 then Leave st'
           else Continue (st'\<lparr>err := Some OutOfOrder\<rparr>))"
    by blast
  then have att: "attempt spec_helpers late_reply_agent (session 900 2 4) [sysDescr]
       (request_packet GetRequest) 1 after_first_timeout =
     Leave \<lparr>result = Some (hello_packet 5), err = None, allReqIDs = [5, 6], x_requestID = 6,
            deadlines = [300, 600], written = [get_datagram 5, get_datagram 6]\<rparr>"
    by (simp add: Let_def after_first_timeout_def hello_packet_def late_reply_agent_def session_def
          go_quo_def)
  have "(1::nat) = 0 \<or> (now_retry late_reply_agent 1 \<le> 900 \<and> int 1 \<le> Retries (session 900 2 4))"
    by (simp add: late_reply_agent_def session_def)
  with t have "send_loop spec_helpers late_reply_agent (session 900 2 4) [sysDescr]
       (request_packet GetRequest) 900 1 after_first_timeout =
     (case attempt spec_helpers late_reply_agent (session 900 2 4) [sysDescr]
             (request_packet GetRequest) 1 after_first_timeout of
        Leave s' \<Rightarrow> s'
      | Continue s' \<Rightarrow> send_loop spec_helpers late_reply_agent (session 900 2 4) [sysDescr]
             (request_packet GetRequest) 900 (Suc 1) s')"
    by blast
  then have lp: "send_loop spec_helpers late_reply_agent (session 900 2 4) [sysDescr]
       (request_packet GetRequest) 900 1 after_first_timeout =
     \<lparr>result = Some (hello_packet 5), err = None, allReqIDs = [5, 6], x_requestID = 6,
      deadlines = [300, 600], written = [get_datagram 5, get_datagram 6]\<rparr>"
    unfolding att by simp
  from eval_late_reply mem eval_second_request w rd eval_hello_5 att lp show ?thesis
    by (intro conjI)
qed

text \<open>
  The claim as it is written fails for a response without variables: its request id 9
  was never issued, and the error recorded (and returned, with no retry left) is
  \<open>DecodeNil\<close>, not \<open>OutOfOrder\<close>.
\<close>

theorem send_response_matching_counterexample:
  "unmarshal spec_helpers (empty_reply 9) = Inr (empty_packet 9) \<and>
   RequestID (empty_packet 9) \<notin>
     set (allReqIDs (send spec_helpers empty_reply_agent (session 900 0 4) [sysDescr] (request_packet GetRequest))) \<and>
   err (send spec_helpers empty_reply_agent (session 900 0 4) [sysDescr] (request_packet GetRequest)) =
     Some DecodeNil \<and>
   err (send spec_helpers empty_reply_agent (session 900 0 4) [sysDescr] (request_packet GetRequest)) \<noteq>
     Some OutOfOrder"
proof -
  have a: "unmarshal spec_helpers (empty_reply 9) = Inr (empty_packet 9)"
    by code_simp
  have b: "allReqIDs (send spec_helpers empty_reply_agent (session 900 0 4) [sysDescr] (request_packet GetRequest)) = [5]"
    by code_simp
  have c: "err (send spec_helpers empty_reply_agent (session 900 0 4) [sysDescr] (request_packet GetRequest)) =
     Some DecodeNil"
    by code_simp
  show ?thesis unfolding a b c by (simp add: empty_packet_def)
qed




lemma marshalMsg_varbind_error:
  assumes "marshalVarbind h pdu = Inl e1"
  shows "marshalMsg h packet [pdu] t rid = Inl e1"
  using assms by (simp add: marshalMsg_def marshalPDU_def marshalVBL_def Let_def)

lemma attempt_marshal_error:
  assumes "marshalMsg h packetOut pdus (PDUType packetOut) (x_requestID st + 1) = Inl e1"
  shows "\<exists>s'. attempt h e x pdus packetOut retries st = Leave s' \<and>
           result s' = (case panicOf e1 of Some p \<Rightarrow> result st | None \<Rightarrow> None) \<and>
           written s' = written st \<and>
           err s' = (case panicOf e1 of Some p \<Rightarrow> Some (Recovered p) | None \<Rightarrow> Some (MarshalError e1))"
  using assms by (cases "panicOf e1") (simp_all add: attempt_def Let_def)

text \<open>
  Claim C10, as amended. A varbind of type Integer whose value is not a Go \<open>int\<close> never
  marshals: when \<open>marshalOID\<close> accepts its name, \<open>marshalVarbind\<close> panics at the type
  assertion, and \<open>marshalMsg\<close> with it; when \<open>marshalOID\<close> refuses the name, its error
  is returned before the assertion is reached. \<open>Set\<close> tests the type only and hands the
  varbind to \<open>send\<close>, which returns no result and writes nothing: without a connection
  its error is \<open>ConnMissing\<close>; with one, if the allocation of \<open>allReqIDs\<close> panics, that
  panic recovered; otherwise, when \<open>marshalOID\<close> accepts the name, the recovered panic
  of the type assertion, from the first attempt, which is neither a marshal error nor
  one of the two refusals of \<open>Set\<close>; and when \<open>marshalOID\<close> refuses the name, its error
  as a marshal error (or recovered, if it is itself a panic).
\<close>

theorem Integer_value_not_int_panics:
  assumes "Type pdu = Integer"
    and "\<forall>v. Value pdu \<noteq> GoInt v"
  shows "marshalVarbind h pdu =
           (case marshalOID h (Name pdu) of
              Inl e1 \<Rightarrow> Inl e1
            | Inr oid \<Rightarrow> Inl (Panic InterfaceConversion)) \<and>
         marshalMsg h packet [pdu] t rid =
           (case marshalOID h (Name pdu) of
              Inl e1 \<Rightarrow> Inl e1
            | Inr oid \<Rightarrow> Inl (Panic InterfaceConversion)) \<and>
         err (Set h e x [pdu]) =
           (if Conn x = None then Some ConnMissing
            else if makeslice_panics e (wrap64 (max 0 (Retries x) + 1))
              then Some (Recovered MakesliceCapOutOfRange)
            else case marshalOID h (Name pdu) of
                   Inr oid \<Rightarrow> Some (Recovered InterfaceConversion)
                 | Inl e1 \<Rightarrow>
                    (case panicOf e1 of
                       Some p \<Rightarrow> Some (Recovered p)
                     | None \<Rightarrow> Some (MarshalError e1))) \<and>
         result (Set h e x [pdu]) = None \<and>
         written (Set h e x [pdu]) = []"
proof -
  let ?m = "(case marshalOID h (Name pdu) of
              Inl e1 \<Rightarrow> Inl e1
            | Inr oid \<Rightarrow> Inl (Panic InterfaceConversion)) :: error + byte list"
  have vb: "marshalVarbind h pdu = ?m"
    using assms by (cases "Value pdu") (simp_all add: marshalVarbind_def split: sum.splits)
  obtain e1 where e1: "?m = Inl e1" by (cases "marshalOID h (Name pdu)") simp_all
  have msg: "marshalMsg h packet [pdu] t rid = Inl e1" for packet t rid
    using vb e1 by (simp add: marshalMsg_varbind_error)
  have errcase: "(case panicOf e1 of Some p \<Rightarrow> Some (Recovered p) | None \<Rightarrow> Some (MarshalError e1)) =
      (case marshalOID h (Name pdu) of
                   Inr oid \<Rightarrow> Some (Recovered InterfaceConversion)
                 | Inl e2 \<Rightarrow>
                    (case panicOf e2 of
                       Some p \<Rightarrow> Some (Recovered p)
                     | None \<Rightarrow> Some (MarshalError e2)))"
    using e1 by (cases "marshalOID h (Name pdu)") auto
  let ?p = "\<lparr>Version = GoSNMP.Version x, Community = GoSNMP.Community x,
                        PDUType = SetRequest, RequestID = 0, Error = 0, ErrorIndex = 0,
                        NonRepeaters = 0, MaxRepetitions = 0, Variables = []\<rparr>"
  have set: "Set h e x [pdu] = send h e x [pdu] ?p"
    using assms(1) by (simp add: Set_def Let_def)
  have engine: "err (send h e x [pdu] ?p) =
           (if Conn x = None then Some ConnMissing
            else if makeslice_panics e (wrap64 (max 0 (Retries x) + 1))
              then Some (Recovered MakesliceCapOutOfRange)
            else case panicOf e1 of Some p \<Rightarrow> Some (Recovered p) | None \<Rightarrow> Some (MarshalError e1)) \<and>
         result (send h e x [pdu] ?p) = None \<and>
         written (send h e x [pdu] ?p) = []"
  proof (cases "Conn x = None \<or> makeslice_panics e (wrap64 (max 0 (Retries x) + 1))")
    case True
    then show ?thesis by (auto simp add: send_unfold initial_state_def)
  next
    case False
    let ?x = "if Retries x < 0 then x\<lparr>Retries := 0\<rparr> else x"
    have s: "send h e x [pdu] ?p = send_loop h e ?x [pdu] ?p (now_start e + Timeout x) 0 (initial_state x)"
      using False by (auto simp add: send_unfold)
    obtain s' where a: "attempt h e ?x [pdu] ?p 0 (initial_state x) = Leave s'"
        "result s' = (case panicOf e1 of Some p \<Rightarrow> result (initial_state x) | None \<Rightarrow> None)"
        "written s' = written (initial_state x)"
        "err s' = (case panicOf e1 of Some p \<Rightarrow> Some (Recovered p) | None \<Rightarrow> Some (MarshalError e1))"
      using attempt_marshal_error [where h = h and packetOut = ?p and pdus = "[pdu]"
          and st = "initial_state x" and ?e1.0 = e1 and e = e and x = ?x and retries = 0, OF msg]
      by blast
    have "send_loop h e ?x [pdu] ?p (now_start e + Timeout x) 0 (initial_state x) = s'"
      by (simp add: send_loop_entered a(1))
    with s a False show ?thesis by (simp add: initial_state_def split: option.splits)
  qed
  from vb msg [of packet t rid] e1 have "marshalMsg h packet [pdu] t rid = ?m" by simp
  with vb engine errcase set show ?thesis by simp
qed

text \<open>
  A \<open>Set\<close> of \<open>.1.3.6.1.2.1.1.4.0\<close> to the \<open>int64\<close> 300 on a connected session: the
  recovered panic of the type assertion.
\<close>

theorem Integer_value_not_int_panics_witness:
  "Type sysContact_int64 = Integer \<and>
   (\<forall>v. Value sysContact_int64 \<noteq> GoInt v) \<and>
   marshalOID spec_helpers (Name sysContact_int64) = Inr [0x2B, 0x06, 0x01, 0x02, 0x01, 0x01, 0x04, 0x00] \<and>
   Conn (session 900 2 0) \<noteq> None \<and>
   \<not> makeslice_panics silent_agent (wrap64 (max 0 (Retries (session 900 2 0)) + 1)) \<and>
   marshalVarbind spec_helpers sysContact_int64 = Inl (Panic InterfaceConversion) \<and>
   marshalMsg spec_helpers (request_packet SetRequest) [sysContact_int64] SetRequest 1 =
     Inl (Panic InterfaceConversion) \<and>
   err (Set spec_helpers silent_agent (session 900 2 0) [sysContact_int64]) =
     Some (Recovered InterfaceConversion) \<and>
   result (Set spec_helpers silent_agent (session 900 2 0) [sysContact_int64]) = None \<and>
   written (Set spec_helpers silent_agent (session 900 2 0) [sysContact_int64]) = []"
proof -
  have a: "Type sysContact_int64 = Integer" by (simp add: sysContact_int64_def)
  have b: "\<forall>v. Value sysContact_int64 \<noteq> GoInt v" by (simp add: sysContact_int64_def)
  have c: "marshalOID spec_helpers (Name sysContact_int64) =
      Inr [0x2B, 0x06, 0x01, 0x02, 0x01, 0x01, 0x04, 0x00]" by code_simp
  have d: "Conn (session 900 2 0) \<noteq> None" by (simp add: session_def)
  have m: "\<not> makeslice_panics silent_agent (wrap64 (max 0 (Retries (session 900 2 0)) + 1))"
    by code_simp
  note inst = Integer_value_not_int_panics [OF a b, of spec_helpers "request_packet SetRequest"
      SetRequest 1 silent_agent "session 900 2 0"]
  from inst have "marshalVarbind spec_helpers sysContact_int64 =
           (case marshalOID spec_helpers (Name sysContact_int64) of
              Inl e1 \<Rightarrow> Inl e1
            | Inr oid \<Rightarrow> Inl (Panic InterfaceConversion))" by (rule conjunct1)
  then have v: "marshalVarbind spec_helpers sysContact_int64 = Inl (Panic InterfaceConversion)"
    unfolding c by simp
  from inst have "marshalMsg spec_helpers (request_packet SetRequest) [sysContact_int64] SetRequest 1 =
           (case marshalOID spec_helpers (Name sysContact_int64) of
              Inl e1 \<Rightarrow> Inl e1
            | Inr oid \<Rightarrow> Inl (Panic InterfaceConversion))" by blast
  then have g: "marshalMsg spec_helpers (request_packet SetRequest) [sysContact_int64] SetRequest 1 =
     Inl (Panic InterfaceConversion)"
    unfolding c by simp
  from inst have "err (Set spec_helpers silent_agent (session 900 2 0) [sysContact_int64]) =
           (if Conn (session 900 2 0) = None then Some ConnMissing
            else if makeslice_panics silent_agent (wrap64 (max 0 (Retries (session 900 2 0)) + 1))
              then Some (Recovered MakesliceCapOutOfRange)
            else case marshalOID spec_helpers (Name sysContact_int64) of
                   Inr oid \<Rightarrow> Some (Recovered InterfaceConversion)
                 | Inl e1 \<Rightarrow>
                    (case panicOf e1 of
                       Some p \<Rightarrow> Some (Recovered p)
                     | None \<Rightarrow> Some (MarshalError e1)))" by blast
  then have r: "err (Set spec_helpers silent_agent (session 900 2 0) [sysContact_int64]) =
     Some (Recovered InterfaceConversion)"
    using d m unfolding c by simp
  from inst have n: "result (Set spec_helpers silent_agent (session 900 2 0) [sysContact_int64]) = None"
    by blast
  from inst have w: "written (Set spec_helpers silent_agent (session 900 2 0) [sysContact_int64]) = []"
    by blast
  from a b c d m v g r n w show ?thesis by (intro conjI)
qed

text \<open>
  The claim as it is written fails where the type assertion is not reached. On a
  session without a connection, \<open>Set\<close> of the same varbind returns \<open>ConnMissing\<close> and
  nothing panics; and for a name with an empty component, which the OID codec of the
  specification refuses, \<open>marshalVarbind\<close> returns that error and \<open>Set\<close> on a connected
  session a marshal error.
\<close>

theorem Integer_value_not_int_counterexample:
  "err (Set spec_helpers silent_agent ((session 900 2 0)\<lparr>Conn := None\<rparr>) [sysContact_int64]) =
     Some ConnMissing \<and>
   err (Set spec_helpers silent_agent ((session 900 2 0)\<lparr>Conn := None\<rparr>) [sysContact_int64]) \<noteq>
     Some (Recovered InterfaceConversion) \<and>
   marshalVarbind spec_helpers (sysContact_int64\<lparr>Name := ''.1..3''\<rparr>) = Inl InvalidOid \<and>
   err (Set spec_helpers silent_agent (session 900 2 0) [sysContact_int64\<lparr>Name := ''.1..3''\<rparr>]) =
     Some (MarshalError InvalidOid)"
proof -
  have a: "err (Set spec_helpers silent_agent ((session 900 2 0)\<lparr>Conn := None\<rparr>) [sysContact_int64]) =
     Some ConnMissing"
    by code_simp
  have b: "marshalVarbind spec_helpers (sysContact_int64\<lparr>Name := ''.1..3''\<rparr>) = Inl InvalidOid"
    by code_simp
  have c: "err (Set spec_helpers silent_agent (session 900 2 0) [sysContact_int64\<lparr>Name := ''.1..3''\<rparr>]) =
     Some (MarshalError InvalidOid)"
    by code_simp
  from a b c show ?thesis by simp
qed

end
